theory Spec2Isabelle
  imports Complex_Main "HOL-Library.Sublist" "HOL-Library.Multiset" "HOL-Library.Log_Nat"
begin

section \<open>Adaptive workload controller (Adaptiveworkload.py)\<close>

text \<open>
  The module keeps two globals, \<open>REQUEST_LOG\<close> and \<open>LAST_SCALING_TIME\<close>, reads the
  wall clock with \<open>datetime.now()\<close> and talks to EC2 through \<open>describe_instances\<close>,
  \<open>start_instances\<close> and \<open>stop_instances\<close>. The embedding passes the globals as a
  record, takes every clock reading and every EC2 answer as an explicit input (so that each
  theorem quantifies over all of them), returns exceptions as \<open>Inl\<close>, and returns the
  EC2 calls and log lines a function produces as a list of events.

  A \<open>datetime\<close> has microsecond resolution: a timestamp is an integer number of
  microseconds, and the difference of two timestamps (a \<open>timedelta\<close>) is an integer too.

  \<open>total_seconds()\<close> and the arrival rate are Python floats (IEEE 754 binary64). A float is
  modelled by the rational number it denotes, and every float operation of the source by the
  exact operation followed by \<open>to_double\<close>, rounding to the nearest double with ties to the
  even mantissa: \<open>total_seconds()\<close> rounds the number of microseconds over \<open>10**6\<close>, the
  division in the rate rounds the quotient of the (converted) length and the float span, and
  \<open>round(x, 2)\<close> rounds the exact value of the float to two decimals and that result to a
  double. \<open>to_double\<close> covers the normal range of binary64 (magnitudes from \<open>2\<^sup>-\<^sup>1\<^sup>0\<^sup>2\<^sup>2\<close> to
  below \<open>2\<^sup>1\<^sup>0\<^sup>2\<^sup>4\<close>); spans are at least a microsecond and at most the range of
  \<open>datetime\<close>, and a rate is a list length over such a span, so every float of the program
  lies far inside that range.
\<close>

subsection \<open>Floating point\<close>

definition round_half_even :: "rat \<Rightarrow> int" where
  \<comment> \<open>the nearest integer, a tie going to the even one\<close>
  "round_half_even y =
    (let f = \<lfloor>y\<rfloor>; d = y - of_int f
     in if d < 1 / 2 then f else if 1 / 2 < d then f + 1
        else if even f then f else f + 1)"

definition float_exponent :: "rat \<Rightarrow> int" where
  \<comment> \<open>for \<open>a > 0\<close>, the \<open>e\<close> with \<open>2\<^sup>e \<le> a < 2\<^sup>e\<^sup>+\<^sup>1\<close>\<close>
  "float_exponent a = (if 1 \<le> a then bitlen \<lfloor>a\<rfloor> - 1 else - bitlen (\<lceil>1 / a\<rceil> - 1))"

definition to_double :: "rat \<Rightarrow> rat" where
  \<comment> \<open>the nearest binary64 value: 53 significant bits, ties to even\<close>
  "to_double x =
    (if x = 0 then 0
     else let q = float_exponent \<bar>x\<bar> - 52
          in sgn x * of_int (round_half_even (\<bar>x\<bar> / 2 powi q)) * 2 powi q)"

subsection \<open>Configuration\<close>

type_synonym timestamp = int
type_synonym timedelta = int

definition THRESHOLD_T1 :: int where
  "THRESHOLD_T1 = 5"

definition THRESHOLD_T2 :: int where
  "THRESHOLD_T2 = 10"

definition HYSTERESIS :: int where
  "HYSTERESIS = 2"

definition COOLDOWN_PERIOD :: int where
  "COOLDOWN_PERIOD = 10"

definition REQUEST_LOG_WINDOW :: int where
  "REQUEST_LOG_WINDOW = 60"

definition timedelta_seconds :: "int \<Rightarrow> timedelta" where
  \<comment> \<open>\<open>timedelta(seconds=n)\<close>\<close>
  "timedelta_seconds n = n * 1000000"

definition total_seconds :: "timedelta \<Rightarrow> rat" where
  \<comment> \<open>\<open>timedelta.total_seconds()\<close>\<close>
  "total_seconds d = to_double (of_int d / 1000000)"

record instance_group =
  arn :: string
  ids :: "string list"

definition INSTANCE_GROUPS :: "(string \<times> instance_group) list" where
  \<comment> \<open>A dict; iteration follows insertion order, so an association list in that order.\<close>
  "INSTANCE_GROUPS =
    [(''small'',
       \<lparr>arn = ''arn:aws:elasticloadbalancing:ap-south-1:975050195505:loadbalancer/app/my-alb/12253abf01a627b6'',
        ids = [''i-0c57481c98da9fe7e'']\<rparr>),
     (''medium'',
       \<lparr>arn = ''arn:aws:elasticloadbalancing:ap-south-1:975050195505:loadbalancer/app/my-alb/12253abf01a627b6'',
        ids = [''i-0adefdc2a894f3c7b'']\<rparr>),
     (''large'',
       \<lparr>arn = ''arn:aws:elasticloadbalancing:ap-south-1:975050195505:loadbalancer/app/my-alb/12253abf01a627b6'',
        ids = [''i-0b8e3663a1e20b934'']\<rparr>)]"

subsection \<open>Errors, global state, events\<close>

datatype error =
    ZeroDivisionError
  | IndexError
  | ClientError string  \<comment> \<open>any exception raised by an EC2 call or while reading its answer\<close>

datatype entry = Entry (timestamp: timestamp)  \<comment> \<open>the dict \<open>{'timestamp': t}\<close>\<close>

record state =
  REQUEST_LOG :: "entry list"
  LAST_SCALING_TIME :: "timestamp option"

datatype event =
    DescribeInstances "string list"   \<comment> \<open>\<open>ec2.describe_instances\<close> called\<close>
  | StartInstances "string list"      \<comment> \<open>\<open>ec2.start_instances\<close> called\<close>
  | StopInstances "string list"       \<comment> \<open>\<open>ec2.stop_instances\<close> called\<close>
  | LogAlready "string list" string   \<comment> \<open>info: Instances ... already ...\<close>
  | LogCooldown                       \<comment> \<open>warning: Scaling skipped: Cooldown active\<close>
  | LogStarted "string list"          \<comment> \<open>info: Started instances\<close>
  | LogStopped "string list"          \<comment> \<open>info: Stopped instances\<close>
  | LogApiError error                 \<comment> \<open>error: AWS API error\<close>
  | LogRequestFailed error            \<comment> \<open>error: Request handling failed\<close>
  | LogStatusFailed string error      \<comment> \<open>error: Status check failed for group\<close>

subsection \<open>Python primitives that can raise\<close>

definition truediv :: "rat \<Rightarrow> rat \<Rightarrow> error + rat" where
  \<comment> \<open>\<open>a / b\<close> on floats\<close>
  "truediv a b = (if b = 0 then Inl ZeroDivisionError else Inr (to_double (a / b)))"

definition index_first :: "'a list \<Rightarrow> error + 'a" where
  \<comment> \<open>\<open>xs[0]\<close>\<close>
  "index_first xs = (case xs of [] \<Rightarrow> Inl IndexError | x # _ \<Rightarrow> Inr x)"

definition index_last :: "'a list \<Rightarrow> error + 'a" where
  \<comment> \<open>\<open>xs[-1]\<close>\<close>
  "index_last xs = (if xs = [] then Inl IndexError else Inr (last xs))"

definition round2 :: "rat \<Rightarrow> rat" where
  \<comment> \<open>\<open>round(x, 2)\<close> on a float: the exact value to two decimals, ties to even, as a float\<close>
  "round2 x = to_double (of_int (round_half_even (x * 100)) / 100)"

subsection \<open>Rate estimator\<close>

definition calculate_arrival_rate :: "timestamp \<Rightarrow> state \<Rightarrow> (error + rat) \<times> state" where
  \<comment> \<open>The first argument is the reading of \<open>datetime.now()\<close> on entry. In \<open>len(...) / time_span\<close>
      the length is converted to a float first.\<close>
  "calculate_arrival_rate now s =
    (let log = filter (\<lambda>entry. total_seconds (now - timestamp entry) \<le> of_int REQUEST_LOG_WINDOW)
                 (REQUEST_LOG s);
         s' = s\<lparr>REQUEST_LOG := log\<rparr>
     in if length log < 2 then (Inr 0, s')
        else
          (case index_last log of
             Inl e \<Rightarrow> (Inl e, s')
           | Inr newest \<Rightarrow>
              (case index_first log of
                 Inl e \<Rightarrow> (Inl e, s')
               | Inr oldest \<Rightarrow>
                  (let time_span = total_seconds (timestamp newest - timestamp oldest)
                   in if time_span > 0
                      then (truediv (to_double (of_nat (length log))) time_span, s')
                      else (Inr 0, s')))))"

subsection \<open>Target selector\<close>

definition choose_target_group :: "rat \<Rightarrow> string" where
  "choose_target_group arrival_rate =
    (if arrival_rate \<le> of_int (THRESHOLD_T1 - HYSTERESIS) then ''small''
     else if arrival_rate \<le> of_int (THRESHOLD_T2 - HYSTERESIS) then ''medium''
     else ''large'')"

subsection \<open>Scaling actuator\<close>

record call_env =
  describe_result :: "error + string"
    \<comment> \<open>\<open>describe_instances\<close> and reading the state name from its answer: the name, or the exception\<close>
  now_check :: timestamp        \<comment> \<open>\<open>datetime.now()\<close> in the cooldown test\<close>
  op_result :: "error + unit"   \<comment> \<open>\<open>start_instances\<close> or \<open>stop_instances\<close>: returns, or raises\<close>
  now_after :: timestamp        \<comment> \<open>\<open>datetime.now()\<close> stored after the operation\<close>

definition cooldown_active :: "call_env \<Rightarrow> state \<Rightarrow> bool" where
  \<comment> \<open>\<open>LAST_SCALING_TIME and (datetime.now() - LAST_SCALING_TIME) < timedelta(seconds=COOLDOWN_PERIOD)\<close>\<close>
  "cooldown_active env s =
    (case LAST_SCALING_TIME s of
       None \<Rightarrow> False
     | Some t \<Rightarrow> now_check env - t < timedelta_seconds COOLDOWN_PERIOD)"

definition manage_instances ::
  "string \<Rightarrow> string list \<Rightarrow> call_env \<Rightarrow> state \<Rightarrow> (error + unit) \<times> state \<times> event list" where
  "manage_instances operation instance_ids env s =
    (case describe_result env of
       Inl e \<Rightarrow> (Inl e, s, [DescribeInstances instance_ids, LogApiError e])
     | Inr current_state \<Rightarrow>
        if (operation = ''start'' \<and> current_state = ''running'') \<or>
           (operation = ''stop'' \<and> current_state = ''stopped'')
        then (Inr (), s, [DescribeInstances instance_ids, LogAlready instance_ids current_state])
        else if cooldown_active env s
        then (Inr (), s, [DescribeInstances instance_ids, LogCooldown])
        else if operation = ''start'' then
          (case op_result env of
             Inl e \<Rightarrow> (Inl e, s,
               [DescribeInstances instance_ids, StartInstances instance_ids, LogApiError e])
           | Inr _ \<Rightarrow> (Inr (), s\<lparr>LAST_SCALING_TIME := Some (now_after env)\<rparr>,
               [DescribeInstances instance_ids, StartInstances instance_ids, LogStarted instance_ids]))
        else if operation = ''stop'' then
          (case op_result env of
             Inl e \<Rightarrow> (Inl e, s,
               [DescribeInstances instance_ids, StopInstances instance_ids, LogApiError e])
           | Inr _ \<Rightarrow> (Inr (), s\<lparr>LAST_SCALING_TIME := Some (now_after env)\<rparr>,
               [DescribeInstances instance_ids, StopInstances instance_ids, LogStopped instance_ids]))
        else (Inr (), s\<lparr>LAST_SCALING_TIME := Some (now_after env)\<rparr>,
               [DescribeInstances instance_ids]))"

subsection \<open>Control loop\<close>

record request_env =
  now_append :: timestamp               \<comment> \<open>\<open>datetime.now()\<close> for the appended entry\<close>
  now_rate :: timestamp                 \<comment> \<open>\<open>datetime.now()\<close> inside \<open>calculate_arrival_rate\<close>\<close>
  tier_env :: "string \<Rightarrow> call_env"    \<comment> \<open>what the call of \<open>manage_instances\<close> for a group meets\<close>

datatype response =
    Success string rat   \<comment> \<open>status success, target\_group, arrival\_rate\<close>
  | Failure error        \<comment> \<open>status error with the exception's message, HTTP 500\<close>

fun handle_request_loop ::
  "string \<Rightarrow> (string \<times> instance_group) list \<Rightarrow> (string \<Rightarrow> call_env) \<Rightarrow> state
    \<Rightarrow> (error + unit) \<times> state \<times> event list" where
  "handle_request_loop target_group [] envs s = (Inr (), s, [])"
| "handle_request_loop target_group ((grp, info) # rest) envs s =
    (case manage_instances (if grp = target_group then ''start'' else ''stop'')
            (ids info) (envs grp) s of
       (Inl e, s', tr) \<Rightarrow> (Inl e, s', tr)
     | (Inr _, s', tr) \<Rightarrow>
        (case handle_request_loop target_group rest envs s' of
           (r, s'', tr') \<Rightarrow> (r, s'', tr @ tr')))"

definition handle_request :: "request_env \<Rightarrow> state \<Rightarrow> response \<times> state \<times> event list" where
  "handle_request env s =
    (let s1 = s\<lparr>REQUEST_LOG := REQUEST_LOG s @ [Entry (now_append env)]\<rparr>
     in case calculate_arrival_rate (now_rate env) s1 of
          (Inl e, s2) \<Rightarrow> (Failure e, s2, [LogRequestFailed e])
        | (Inr arrival_rate, s2) \<Rightarrow>
           (let target_group = choose_target_group arrival_rate
            in case handle_request_loop target_group INSTANCE_GROUPS (tier_env env) s2 of
                 (Inl e, s3, tr) \<Rightarrow> (Failure e, s3, tr @ [LogRequestFailed e])
               | (Inr _, s3, tr) \<Rightarrow> (Success target_group (round2 arrival_rate), s3, tr)))"

record metrics_env =
  describe_of :: "string \<Rightarrow> error + string"  \<comment> \<open>the state name read for a group, or the exception\<close>
  now_metrics :: timestamp                      \<comment> \<open>\<open>datetime.now()\<close> inside \<open>calculate_arrival_rate\<close>\<close>

record metrics =
  active_groups :: "string list"
  arrival_rate :: rat

fun get_metrics_loop ::
  "(string \<times> instance_group) list \<Rightarrow> (string \<Rightarrow> error + string) \<Rightarrow> string list
    \<Rightarrow> string list \<times> event list" where
  "get_metrics_loop [] describe active = (active, [])"
| "get_metrics_loop ((grp, info) # rest) describe active =
    (case describe grp of
       Inl e \<Rightarrow>
        (case get_metrics_loop rest describe active of
           (active', tr) \<Rightarrow> (active', DescribeInstances (ids info) # LogStatusFailed grp e # tr))
     | Inr st \<Rightarrow>
        (case get_metrics_loop rest describe (if st = ''running'' then active @ [grp] else active) of
           (active', tr) \<Rightarrow> (active', DescribeInstances (ids info) # tr)))"

definition get_metrics :: "metrics_env \<Rightarrow> state \<Rightarrow> (error + metrics) \<times> state \<times> event list" where
  "get_metrics env s =
    (case get_metrics_loop INSTANCE_GROUPS (describe_of env) [] of
       (active, tr) \<Rightarrow>
        (case calculate_arrival_rate (now_metrics env) s of
           (Inl e, s') \<Rightarrow> (Inl e, s', tr)
         | (Inr rate, s') \<Rightarrow> (Inr \<lparr>active_groups = active, arrival_rate = round2 rate\<rparr>, s', tr)))"

subsection \<open>Reading a trace\<close>

definition issued_calls :: "event list \<Rightarrow> event list" where
  \<comment> \<open>the start and stop calls sent to the fleet controller\<close>
  "issued_calls tr =
    filter (\<lambda>ev. case ev of StartInstances _ \<Rightarrow> True | StopInstances _ \<Rightarrow> True | _ \<Rightarrow> False) tr"

definition transitions :: "string list \<Rightarrow> event list \<Rightarrow> nat" where
  \<comment> \<open>how many start or stop calls for these instances returned without raising\<close>
  "transitions instance_ids tr =
    length (filter (\<lambda>ev. ev = LogStarted instance_ids \<or> ev = LogStopped instance_ids) tr)"

subsection \<open>Vocabulary of the specification\<close>

definition age :: "timestamp \<Rightarrow> entry \<Rightarrow> rat" where
  \<comment> \<open>the age of an entry in seconds at a clock reading, as the float that
      \<open>total_seconds()\<close> returns\<close>
  "age now e = total_seconds (now - timestamp e)"

definition span_seconds :: "entry list \<Rightarrow> rat" where
  \<comment> \<open>the time between the oldest (first) and the newest (last) entry, in seconds, as the float
      that \<open>total_seconds()\<close> returns\<close>
  "span_seconds entries = total_seconds (timestamp (last entries) - timestamp (hd entries))"

definition retained :: "timestamp \<Rightarrow> state \<Rightarrow> entry list" where
  \<comment> \<open>the request window that a rate computation leaves behind\<close>
  "retained now s = REQUEST_LOG (snd (calculate_arrival_rate now s))"

definition cycle_state :: "request_env \<Rightarrow> state \<Rightarrow> state" where
  \<comment> \<open>the globals after one call of \<open>handle_request\<close>\<close>
  "cycle_state env s = fst (snd (handle_request env s))"

definition cycle_trace :: "request_env \<Rightarrow> state \<Rightarrow> event list" where
  \<comment> \<open>the EC2 calls and log lines of one call of \<open>handle_request\<close>\<close>
  "cycle_trace env s = snd (snd (handle_request env s))"

definition group_names :: "string list" where
  \<comment> \<open>the keys of \<open>INSTANCE_GROUPS\<close>, in iteration order\<close>
  "group_names = map fst INSTANCE_GROUPS"

definition rate_value :: "entry list \<Rightarrow> rat" where
  \<comment> \<open>the rate as a function of the retained window; \<open>calculate_arrival_rate\<close> is proved to return it\<close>
  "rate_value entries =
    (if length entries < 2 then 0
     else if 0 < span_seconds entries
       then to_double (to_double (of_nat (length entries)) / span_seconds entries)
     else 0)"

definition appended :: "request_env \<Rightarrow> state \<Rightarrow> state" where
  \<comment> \<open>the globals after \<open>REQUEST_LOG.append\<close> in \<open>handle_request\<close>\<close>
  "appended env s = s\<lparr>REQUEST_LOG := REQUEST_LOG s @ [Entry (now_append env)]\<rparr>"

definition cycle_rate :: "request_env \<Rightarrow> state \<Rightarrow> rat" where
  \<comment> \<open>the arrival rate that one call of \<open>handle_request\<close> computes\<close>
  "cycle_rate env s = rate_value (retained (now_rate env) (appended env s))"

definition cycle_loop :: "request_env \<Rightarrow> state \<Rightarrow> (error + unit) \<times> state \<times> event list" where
  \<comment> \<open>the loop over \<open>INSTANCE_GROUPS\<close> as one call of \<open>handle_request\<close> runs it\<close>
  "cycle_loop env s =
     handle_request_loop (choose_target_group (cycle_rate env s)) INSTANCE_GROUPS (tier_env env)
       ((appended env s)\<lparr>REQUEST_LOG := retained (now_rate env) (appended env s)\<rparr>)"

definition cycles_within_cooldown :: "request_env \<Rightarrow> request_env \<Rightarrow> bool" where
  \<comment> \<open>every cooldown test of the second cycle reads less than the cooldown after every reading the first cycle stores\<close>
  "cycles_within_cooldown env1 env2 =
    (\<forall>g\<in>set group_names. \<forall>g'\<in>set group_names.
       now_check (tier_env env2 g') - now_after (tier_env env1 g)
         < timedelta_seconds COOLDOWN_PERIOD)"

definition cycles_beyond_cooldown :: "request_env \<Rightarrow> request_env \<Rightarrow> bool" where
  \<comment> \<open>every cooldown test of the second cycle reads more than the cooldown after every reading the first cycle stores\<close>
  "cycles_beyond_cooldown env1 env2 =
    (\<forall>g\<in>set group_names. \<forall>g'\<in>set group_names.
       timedelta_seconds COOLDOWN_PERIOD
         < now_check (tier_env env2 g') - now_after (tier_env env1 g))"

definition fleet_answers :: "request_env \<Rightarrow> bool" where
  \<comment> \<open>no fleet-controller call of the cycle raises\<close>
  "fleet_answers env =
    (\<forall>g\<in>set group_names.
       \<not> isl (describe_result (tier_env env g)) \<and> \<not> isl (op_result (tier_env env g)))"

definition burst_in_window :: "request_env \<Rightarrow> request_env \<Rightarrow> request_env \<Rightarrow> bool" where
  \<comment> \<open>no event of the burst is older than the window at a rate computation that follows it\<close>
  "burst_in_window e1 e2 e3 =
    (now_rate e1 - now_append e1 \<le> timedelta_seconds REQUEST_LOG_WINDOW \<and>
     now_rate e2 - now_append e1 \<le> timedelta_seconds REQUEST_LOG_WINDOW \<and>
     now_rate e2 - now_append e2 \<le> timedelta_seconds REQUEST_LOG_WINDOW \<and>
     now_rate e3 - now_append e1 \<le> timedelta_seconds REQUEST_LOG_WINDOW \<and>
     now_rate e3 - now_append e2 \<le> timedelta_seconds REQUEST_LOG_WINDOW \<and>
     now_rate e3 - now_append e3 \<le> timedelta_seconds REQUEST_LOG_WINDOW)"

definition burst_rate :: "request_env \<Rightarrow> request_env \<Rightarrow> rat" where
  \<comment> \<open>three events over the time from the first to the third, when that time is positive\<close>
  "burst_rate e1 e3 =
    (if 0 < now_append e3 - now_append e1
     then to_double (3 / total_seconds (now_append e3 - now_append e1)) else 0)"

subsection \<open>Concrete inputs\<close>

definition two_entries_state :: state where
  \<comment> \<open>two requests one second apart\<close>
  "two_entries_state = \<lparr>REQUEST_LOG = [Entry 0, Entry 1000000], LAST_SCALING_TIME = None\<rparr>"

definition aged_state :: state where
  \<comment> \<open>requests at 0 s, 50 s and 100 s\<close>
  "aged_state =
    \<lparr>REQUEST_LOG = [Entry 0, Entry 50000000, Entry 100000000], LAST_SCALING_TIME = None\<rparr>"

definition empty_state :: state where
  \<comment> \<open>the globals at process start\<close>
  "empty_state = \<lparr>REQUEST_LOG = [], LAST_SCALING_TIME = None\<rparr>"

definition simultaneous_state :: state where
  \<comment> \<open>two requests with the same timestamp\<close>
  "simultaneous_state = \<lparr>REQUEST_LOG = [Entry 7, Entry 7], LAST_SCALING_TIME = None\<rparr>"

definition instant_env :: "timestamp \<Rightarrow> string \<Rightarrow> string \<Rightarrow> string \<Rightarrow> request_env" where
  \<comment> \<open>a cycle whose clock readings are all \<open>t\<close>, with the three tiers observed in the given states and every EC2 call succeeding\<close>
  "instant_env t st_small st_medium st_large =
    \<lparr>now_append = t, now_rate = t,
     tier_env = (\<lambda>g. \<lparr>describe_result =
                        Inr (if g = ''small'' then st_small
                             else if g = ''medium'' then st_medium else st_large),
                      now_check = t, op_result = Inr (), now_after = t\<rparr>)\<rparr>"

definition observed_env :: "string \<Rightarrow> call_env" where
  \<comment> \<open>a reconciliation at time 0 that observes the given state; the operation, if issued, succeeds\<close>
  "observed_env st = \<lparr>describe_result = Inr st, now_check = 0, op_result = Inr (), now_after = 0\<rparr>"

definition describe_fails_env :: call_env where
  \<comment> \<open>\<open>describe_instances\<close> raises\<close>
  "describe_fails_env =
    \<lparr>describe_result = Inl (ClientError ''RequestLimitExceeded''), now_check = 0,
     op_result = Inr (), now_after = 0\<rparr>"

definition start_fails_env :: call_env where
  \<comment> \<open>the instances are observed stopped and \<open>start_instances\<close> raises\<close>
  "start_fails_env =
    \<lparr>describe_result = Inr ''stopped'', now_check = 0,
     op_result = Inl (ClientError ''InsufficientInstanceCapacity''), now_after = 0\<rparr>"

definition slow_cycle_env :: request_env where
  \<comment> \<open>\<open>small\<close> is observed stopped at 0 s; the other tiers are observed running at 10 s\<close>
  "slow_cycle_env =
    \<lparr>now_append = 0, now_rate = 0,
     tier_env = (\<lambda>g. if g = ''small''
        then \<lparr>describe_result = Inr ''stopped'', now_check = 0, op_result = Inr (), now_after = 0\<rparr>
        else \<lparr>describe_result = Inr ''running'', now_check = 10000000, op_result = Inr (),
              now_after = 10000000\<rparr>)\<rparr>"

definition one_request_state :: state where
  \<comment> \<open>one request logged at 0 s, no scaling yet\<close>
  "one_request_state = \<lparr>REQUEST_LOG = [Entry 0], LAST_SCALING_TIME = None\<rparr>"

definition after_first_cycle :: state where
  \<comment> \<open>one request logged at 0 s, a transition performed at 0 s\<close>
  "after_first_cycle = \<lparr>REQUEST_LOG = [Entry 0], LAST_SCALING_TIME = Some 0\<rparr>"

definition partial_outage_env :: metrics_env where
  \<comment> \<open>the fetch for \<open>medium\<close> raises, the other tiers are running\<close>
  "partial_outage_env =
    \<lparr>describe_of = (\<lambda>g. if g = ''medium'' then Inl (ClientError ''RequestLimitExceeded'')
                          else Inr ''running''),
     now_metrics = 0\<rparr>"

definition late_second_env :: request_env where
  \<comment> \<open>a request arriving at 9 s whose describe calls return at 10 s: all tiers observed stopped\<close>
  "late_second_env =
    \<lparr>now_append = 9000000, now_rate = 9000000,
     tier_env = (\<lambda>g. \<lparr>describe_result = Inr ''stopped'', now_check = 10000000,
                      op_result = Inr (), now_after = 10000000\<rparr>)\<rparr>"

definition nine_requests_state :: state where
  \<comment> \<open>nine requests 72 ms apart, the first at 0 s and the last at 0.576 s\<close>
  "nine_requests_state =
    \<lparr>REQUEST_LOG = map (\<lambda>k. Entry (int k * 72000)) [0..<9], LAST_SCALING_TIME = None\<rparr>"

definition after_second_burst :: state where
  \<comment> \<open>requests logged at 0 s and 0.4 s, a transition performed at 0 s\<close>
  "after_second_burst = \<lparr>REQUEST_LOG = [Entry 0, Entry 400000], LAST_SCALING_TIME = Some 0\<rparr>"

section \<open>Floating-point rounding\<close>

lemma round_half_even_of_int [simp]: "round_half_even (of_int k) = k"
  by (simp add: round_half_even_def)

lemma round_half_even_range:
  "\<lfloor>y\<rfloor> \<le> round_half_even y \<and> round_half_even y \<le> \<lfloor>y\<rfloor> + 1"
  by (simp add: round_half_even_def Let_def)

lemma round_half_even_mono:
  assumes "y \<le> z"
  shows "round_half_even y \<le> round_half_even z"
proof (cases "\<lfloor>y\<rfloor> = \<lfloor>z\<rfloor>")
  case True
  with assms have "y - of_int \<lfloor>y\<rfloor> \<le> z - of_int \<lfloor>z\<rfloor>" by simp
  with True show ?thesis
    by (auto simp add: round_half_even_def Let_def)
next
  case False
  with assms have "\<lfloor>y\<rfloor> + 1 \<le> \<lfloor>z\<rfloor>"
    using floor_mono [of y z] by linarith
  with round_half_even_range [of y] round_half_even_range [of z] show ?thesis
    by linarith
qed

lemma float_exponent_bounds:
  assumes "0 < a"
  shows "2 powi float_exponent a \<le> a \<and> a < 2 powi (float_exponent a + 1)"
proof (cases "1 \<le> a")
  case True
  then have n: "0 < \<lfloor>a\<rfloor>" by simp
  let ?b = "bitlen \<lfloor>a\<rfloor>"
  from bitlen_bounds [OF n] have lo: "2 ^ nat (?b - 1) \<le> \<lfloor>a\<rfloor>" and hi: "\<lfloor>a\<rfloor> < 2 ^ nat ?b"
    by simp_all
  have b1: "1 \<le> ?b" using n bitlen_eq_zero_iff [of "\<lfloor>a\<rfloor>"] bitlen_nonneg [of "\<lfloor>a\<rfloor>"] by linarith
  have "(2::rat) powi (?b - 1) = of_int (2 ^ nat (?b - 1))"
    using b1 by (simp add: power_int_def)
  also have "\<dots> \<le> of_int \<lfloor>a\<rfloor>" using lo by (simp only: of_int_le_iff)
  also have "\<dots> \<le> a" by simp
  finally have l: "2 powi (?b - 1) \<le> a" .
  from hi have "\<lfloor>a\<rfloor> + 1 \<le> 2 ^ nat ?b" by simp
  then have "(of_int (\<lfloor>a\<rfloor> + 1) :: rat) \<le> of_int (2 ^ nat ?b)" by (simp only: of_int_le_iff)
  moreover have "a < of_int (\<lfloor>a\<rfloor> + 1)" by linarith
  ultimately have "a < of_int (2 ^ nat ?b)" by linarith
  also have "\<dots> = (2::rat) powi ?b" using b1 by (simp add: power_int_def)
  finally have h: "a < 2 powi ?b" .
  from True l h show ?thesis by (simp add: float_exponent_def)
next
  case False
  let ?c = "\<lceil>1 / a\<rceil>"
  let ?k = "bitlen (?c - 1)"
  from False assms have inv: "1 < 1 / a" by simp
  then have c2: "2 \<le> ?c" by (simp add: le_ceiling_iff)
  then have n: "0 < ?c - 1" by simp
  from bitlen_bounds [OF n] have lo: "2 ^ nat (?k - 1) \<le> ?c - 1" and hi: "?c - 1 < 2 ^ nat ?k"
    by simp_all
  have k1: "1 \<le> ?k" using n bitlen_eq_zero_iff [of "?c - 1"] bitlen_nonneg [of "?c - 1"] by linarith
  from hi have "?c \<le> 2 ^ nat ?k" by simp
  then have "(of_int ?c :: rat) \<le> of_int (2 ^ nat ?k)" by (simp only: of_int_le_iff)
  moreover have "1 / a \<le> of_int ?c" by simp
  ultimately have "1 / a \<le> of_int (2 ^ nat ?k)" by linarith
  also have "\<dots> = (2::rat) powi ?k" using k1 by (simp add: power_int_def)
  finally have "1 / a \<le> 2 powi ?k" .
  then have "1 \<le> 2 powi ?k * a" using assms by (simp add: pos_divide_le_eq)
  then have "inverse (2 powi ?k) \<le> a"
    by (simp add: field_simps)
  then have l: "(2::rat) powi (- ?k) \<le> a" by (simp add: power_int_minus)
  have "of_int (?c - 1) < 1 / a" by linarith
  moreover from lo have "(of_int (2 ^ nat (?k - 1)) :: rat) \<le> of_int (?c - 1)"
    by (simp only: of_int_le_iff)
  ultimately have "(of_int (2 ^ nat (?k - 1)) :: rat) < 1 / a" by linarith
  moreover have "(of_int (2 ^ nat (?k - 1)) :: rat) = 2 powi (?k - 1)"
    using k1 by (simp add: power_int_def)
  ultimately have "2 powi (?k - 1) < 1 / a" by simp
  then have "2 powi (?k - 1) * a < 1" using assms by (simp add: pos_less_divide_eq)
  then have "a < inverse (2 powi (?k - 1))"
    by (simp add: field_simps)
  moreover have "inverse ((2::rat) powi (?k - 1)) = 2 powi (- (?k - 1))"
    by (simp only: power_int_minus)
  moreover have "- (?k - 1) = - ?k + 1" by simp
  ultimately have h: "a < (2::rat) powi (- ?k + 1)" by simp
  from False l h show ?thesis by (simp add: float_exponent_def)
qed


lemma to_double_pos_eq:
  assumes "0 < a"
  shows "to_double a =
    of_int (round_half_even (a / 2 powi (float_exponent a - 52))) * 2 powi (float_exponent a - 52)"
  using assms by (simp add: to_double_def Let_def)

lemma mantissa_range:
  assumes "0 < a"
  shows "2 ^ 52 \<le> round_half_even (a / 2 powi (float_exponent a - 52)) \<and>
         round_half_even (a / 2 powi (float_exponent a - 52)) \<le> 2 ^ 53"
proof -
  let ?e = "float_exponent a"
  let ?m = "a / 2 powi (?e - 52)"
  have p: "(0::rat) < 2 powi (?e - 52)" by simp
  from float_exponent_bounds [OF assms]
  have lo: "2 powi ?e \<le> a" and hi: "a < 2 powi (?e + 1)" by simp_all
  have e1: "(2::rat) powi ?e = 2 powi (?e - 52) * 2 ^ 52"
    using power_int_add [of "2::rat" "?e - 52" 52] by simp
  have e2: "(2::rat) powi (?e + 1) = 2 powi (?e - 52) * 2 ^ 53"
    using power_int_add [of "2::rat" "?e - 52" 53] by (simp add: add.commute)
  have "(2::rat) ^ 52 \<le> ?m"
    using lo p unfolding e1 by (simp add: pos_le_divide_eq mult.commute)
  then have "of_int (2 ^ 52) \<le> ?m" by simp
  from round_half_even_mono [OF this] have a: "2 ^ 52 \<le> round_half_even ?m"
    by (simp only: round_half_even_of_int)
  have "?m \<le> 2 ^ 53"
    using hi p unfolding e2 by (simp add: pos_divide_le_eq mult.commute)
  then have "?m \<le> of_int (2 ^ 53)" by simp
  from round_half_even_mono [OF this] have b: "round_half_even ?m \<le> 2 ^ 53"
    by (simp only: round_half_even_of_int)
  from a b show ?thesis by simp
qed

lemma to_double_bounds:
  assumes "0 < a"
  shows "2 powi float_exponent a \<le> to_double a \<and> to_double a \<le> 2 powi (float_exponent a + 1)"
proof -
  let ?e = "float_exponent a"
  let ?r = "round_half_even (a / 2 powi (?e - 52))"
  have p: "(0::rat) < 2 powi (?e - 52)" by simp
  have e1: "(2::rat) powi ?e = 2 ^ 52 * 2 powi (?e - 52)"
    using power_int_add [of "2::rat" "?e - 52" 52] by simp
  have e2: "(2::rat) powi (?e + 1) = 2 ^ 53 * 2 powi (?e - 52)"
    using power_int_add [of "2::rat" "?e - 52" 53] by (simp add: add.commute)
  from mantissa_range [OF assms] have "(of_int (2 ^ 52) :: rat) \<le> of_int ?r"
    and "(of_int ?r :: rat) \<le> of_int (2 ^ 53)"
    by (simp_all only: of_int_le_iff)
  then have r1: "(2::rat) ^ 52 \<le> of_int ?r" and r2: "(of_int ?r :: rat) \<le> 2 ^ 53" by simp_all
  have "(2::rat) ^ 52 * 2 powi (?e - 52) \<le> of_int ?r * 2 powi (?e - 52)"
    using r1 p by (intro mult_right_mono) simp_all
  moreover have "(of_int ?r :: rat) * 2 powi (?e - 52) \<le> 2 ^ 53 * 2 powi (?e - 52)"
    using r2 p by (intro mult_right_mono) simp_all
  ultimately have "(2::rat) ^ 52 * 2 powi (?e - 52) \<le> of_int ?r * 2 powi (?e - 52) \<and>
      (of_int ?r :: rat) * 2 powi (?e - 52) \<le> 2 ^ 53 * 2 powi (?e - 52)"
    by simp
  then show ?thesis
    unfolding to_double_pos_eq [OF assms] e1 e2 by simp
qed

lemma to_double_zero [simp]: "to_double 0 = 0"
  by (simp add: to_double_def)

lemma to_double_pos:
  assumes "0 < a"
  shows "0 < to_double a"
proof -
  have "(0::rat) < 2 powi float_exponent a" by simp
  with to_double_bounds [OF assms] show ?thesis by linarith
qed

lemma to_double_minus: "to_double (- x) = - to_double x"
  by (simp add: to_double_def Let_def)

lemma to_double_mono_pos:
  assumes "0 < x" and "x \<le> y"
  shows "to_double x \<le> to_double y"
proof -
  from assms have y: "0 < y" by simp
  let ?ex = "float_exponent x" and ?ey = "float_exponent y"
  from float_exponent_bounds [OF assms(1)] float_exponent_bounds [OF y] assms(2)
  have "(2::rat) powi ?ex < 2 powi (?ey + 1)" by linarith
  then have "?ex < ?ey + 1"
    by (metis linorder_not_less one_le_numeral power_int_increasing)
  then consider (same) "?ex = ?ey" | (less) "?ex + 1 \<le> ?ey" by linarith
  then show ?thesis
  proof cases
    case same
    have p: "(0::rat) < 2 powi (?ey - 52)" by simp
    from assms(2) p have "x / 2 powi (?ey - 52) \<le> y / 2 powi (?ey - 52)"
      by (simp add: divide_right_mono)
    from round_half_even_mono [OF this]
    have "(of_int (round_half_even (x / 2 powi (?ey - 52))) :: rat)
        \<le> of_int (round_half_even (y / 2 powi (?ey - 52)))"
      by (simp only: of_int_le_iff)
    with p show ?thesis
      unfolding to_double_pos_eq [OF assms(1)] to_double_pos_eq [OF y] same
      by (simp add: mult_right_mono)
  next
    case less
    then have "(2::rat) powi (?ex + 1) \<le> 2 powi ?ey"
      by (simp add: power_int_increasing)
    with to_double_bounds [OF assms(1)] to_double_bounds [OF y] show ?thesis
      by linarith
  qed
qed

lemma to_double_mono:
  assumes "x \<le> y"
  shows "to_double x \<le> to_double y"
proof -
  consider (pos) "0 < x" | (neg) "y < 0" | (mid) "x \<le> 0" "0 \<le> y" by linarith
  then show ?thesis
  proof cases
    case pos
    from pos assms show ?thesis by (rule to_double_mono_pos)
  next
    case neg
    with assms have "0 < - y" "- y \<le> - x" by simp_all
    from to_double_mono_pos [OF this] show ?thesis by (simp add: to_double_minus)
  next
    case mid
    have "to_double x \<le> 0"
    proof (cases "x = 0")
      case True
      then show ?thesis by simp
    next
      case False
      with mid have "0 < - x" by simp
      from to_double_pos [OF this] show ?thesis by (simp add: to_double_minus)
    qed
    moreover have "0 \<le> to_double y"
    proof (cases "y = 0")
      case True
      then show ?thesis by simp
    next
      case False
      with mid have "0 < y" by simp
      from to_double_pos [OF this] show ?thesis by simp
    qed
    ultimately show ?thesis by simp
  qed
qed

lemma to_double_nonneg: "0 \<le> x \<Longrightarrow> 0 \<le> to_double x"
  using to_double_mono [of 0 x] by simp

lemma to_double_pos_iff: "0 < to_double x \<longleftrightarrow> 0 < x"
proof
  assume "0 < to_double x"
  show "0 < x"
  proof (rule ccontr)
    assume "\<not> 0 < x"
    then have "x \<le> 0" by simp
    from to_double_mono [OF this] \<open>0 < to_double x\<close> show False by simp
  qed
qed (rule to_double_pos)

lemma to_double_exact:
  "to_double 1 = 1" "to_double 2 = 2" "to_double 3 = 3" "to_double 10 = 10" "to_double 60 = 60"
  by code_simp+

lemma to_double_samples:
  "60 < to_double (60000001 / 1000000)"
  "to_double (999999 / 1000000) \<le> 9999995 / 10000000"
  "3 < to_double (3000001 / 1000000)"
  by code_simp+

text \<open>
  Two computations checked against CPython: nine requests over 0.576 s give
  \<open>15.625000000000002\<close>, one unit in the last place above \<open>125 / 8\<close>, and
  \<open>round(3 / 40.0, 2)\<close> is \<open>0.07\<close>, because the float \<open>3 / 40.0\<close> lies below \<open>0.075\<close>.
\<close>

lemma float_quotient_example:
  "to_double (to_double 9 / to_double (576000 / 1000000)) = 125 / 8 + 1 / 2 ^ 49"
  by code_simp

lemma float_round_example:
  "round2 (to_double (to_double 3 / to_double (40000000 / 1000000))) = to_double (7 / 100)"
  by code_simp

section \<open>Rate estimator\<close>

lemma total_seconds_mono: "d \<le> d' \<Longrightarrow> total_seconds d \<le> total_seconds d'"
  unfolding total_seconds_def by (rule to_double_mono) (simp add: divide_right_mono)

lemma total_seconds_pos_iff: "0 < total_seconds d \<longleftrightarrow> 0 < d"
  by (simp add: total_seconds_def to_double_pos_iff)

lemma total_seconds_zero [simp]: "total_seconds 0 = 0"
  by (simp add: total_seconds_def)

lemma total_seconds_le_window:
  "total_seconds d \<le> of_int REQUEST_LOG_WINDOW \<longleftrightarrow> d \<le> timedelta_seconds REQUEST_LOG_WINDOW"
proof
  assume "d \<le> timedelta_seconds REQUEST_LOG_WINDOW"
  then have "(of_int d :: rat) \<le> of_int 60000000"
    unfolding of_int_le_iff by (simp add: timedelta_seconds_def REQUEST_LOG_WINDOW_def)
  then have "(of_int d :: rat) / 1000000 \<le> 60" by simp
  from to_double_mono [OF this] show "total_seconds d \<le> of_int REQUEST_LOG_WINDOW"
    by (simp add: total_seconds_def REQUEST_LOG_WINDOW_def to_double_exact)
next
  assume le: "total_seconds d \<le> of_int REQUEST_LOG_WINDOW"
  show "d \<le> timedelta_seconds REQUEST_LOG_WINDOW"
  proof (rule ccontr)
    assume "\<not> d \<le> timedelta_seconds REQUEST_LOG_WINDOW"
    then have "60000001 \<le> d"
      by (simp add: timedelta_seconds_def REQUEST_LOG_WINDOW_def)
    then have "(of_int 60000001 :: rat) \<le> of_int d"
      unfolding of_int_le_iff .
    then have "(60000001 :: rat) / 1000000 \<le> of_int d / 1000000" by simp
    from to_double_mono [OF this] to_double_samples(1) le show False
      by (simp add: total_seconds_def REQUEST_LOG_WINDOW_def)
  qed
qed

lemma age_le_iff:
  "age now e \<le> of_int REQUEST_LOG_WINDOW \<longleftrightarrow>
     now - timestamp e \<le> timedelta_seconds REQUEST_LOG_WINDOW"
  by (simp add: age_def total_seconds_le_window)

lemma retained_filter:
  "retained now s = filter (\<lambda>e. age now e \<le> of_int REQUEST_LOG_WINDOW) (REQUEST_LOG s)"
  by (simp add: retained_def calculate_arrival_rate_def Let_def age_def
      split: sum.splits)

lemma retained_filter_us:
  "retained now s =
     filter (\<lambda>e. now - timestamp e \<le> timedelta_seconds REQUEST_LOG_WINDOW) (REQUEST_LOG s)"
  by (simp add: retained_filter age_le_iff)

lemma calculate_arrival_rate_value:
  "fst (calculate_arrival_rate now s) =
    (if length (retained now s) < 2 then Inr 0
     else if 0 < span_seconds (retained now s)
       then Inr (to_double (to_double (of_nat (length (retained now s))) /
                   span_seconds (retained now s)))
       else Inr 0)"
proof (cases "length (retained now s) < 2")
  case True
  then show ?thesis
    by (simp add: retained_filter age_def calculate_arrival_rate_def Let_def)
next
  case False
  then obtain x xs where xs: "retained now s = x # xs" "xs \<noteq> []"
    by (cases "retained now s") auto
  from False xs show ?thesis
    unfolding retained_filter age_def
    by (simp add: calculate_arrival_rate_def Let_def index_first_def index_last_def
        truediv_def span_seconds_def)
qed

lemma retained_two_entries:
  "retained 1000000 two_entries_state = [Entry 0, Entry 1000000]"
  by (simp add: retained_filter_us two_entries_state_def timedelta_seconds_def
      REQUEST_LOG_WINDOW_def)

lemma retained_aged:
  "retained 100000000 aged_state = [Entry 50000000, Entry 100000000]"
  by (simp add: retained_filter_us aged_state_def timedelta_seconds_def REQUEST_LOG_WINDOW_def)

lemma retained_empty: "retained now empty_state = []"
  by (simp add: retained_filter empty_state_def)

lemma retained_simultaneous: "retained 7 simultaneous_state = [Entry 7, Entry 7]"
  by (simp add: retained_filter_us simultaneous_state_def timedelta_seconds_def
      REQUEST_LOG_WINDOW_def)

lemma span_one_second: "span_seconds [Entry 0, Entry 1000000] = 1"
  by (simp add: span_seconds_def total_seconds_def to_double_exact)

lemma filter_sorted_dropWhile:
  assumes "sorted (map f xs)" and "\<And>a b. P a \<Longrightarrow> f a \<le> f b \<Longrightarrow> P b"
  shows "filter P xs = dropWhile (\<lambda>x. \<not> P x) xs"
  using assms
proof (induction xs)
  case Nil
  then show ?case by simp
next
  case (Cons x xs)
  show ?case
  proof (cases "P x")
    case True
    have "\<forall>y\<in>set xs. P y"
      using Cons.prems True by auto
    then have "filter P xs = xs" by simp
    with True show ?thesis by simp
  next
    case False
    with Cons show ?thesis by simp
  qed
qed

text \<open>
  Claim C1, as amended. The claim reads: for a window that retains \<open>n \<ge> 2\<close> entries after
  pruning and whose span is strictly positive, the estimator returns \<open>(n - 1) / span\<close>.
  The code divides the number of retained entries itself, not \<open>n - 1\<close>, by the span, in
  floating point: for every such window \<open>calculate_arrival_rate\<close> returns the float
  quotient of \<open>n\<close> and the float span, that is, the double nearest to \<open>n\<close> (as a float)
  over the span that \<open>total_seconds()\<close> returned. Nine requests over 0.576 s give
  \<open>15.625000000000002\<close>, not \<open>125 / 8\<close>.
\<close>

theorem rate_is_count_over_span:
  assumes "2 \<le> length (retained now s)" and "0 < span_seconds (retained now s)"
  shows "fst (calculate_arrival_rate now s) =
           Inr (to_double (to_double (of_nat (length (retained now s))) /
                  span_seconds (retained now s)))"
  using assms by (simp add: calculate_arrival_rate_value)

theorem rate_is_count_over_span_witness:
  "2 \<le> length (retained 1000000 two_entries_state) \<and>
   0 < span_seconds (retained 1000000 two_entries_state) \<and>
   fst (calculate_arrival_rate 1000000 two_entries_state) = Inr 2 \<and>
   2 \<le> length (retained 576000 nine_requests_state) \<and>
   0 < span_seconds (retained 576000 nine_requests_state) \<and>
   fst (calculate_arrival_rate 576000 nine_requests_state) = Inr (125 / 8 + 1 / 2 ^ 49)"
proof -
  have n: "2 \<le> length (retained 1000000 two_entries_state)"
    by (simp add: retained_two_entries)
  have p: "0 < span_seconds (retained 1000000 two_entries_state)"
    by (simp add: retained_two_entries span_one_second)
  from rate_is_count_over_span [OF n p]
  have two: "fst (calculate_arrival_rate 1000000 two_entries_state) = Inr 2"
    by (simp add: retained_two_entries span_one_second to_double_exact)
  have n9: "2 \<le> length (retained 576000 nine_requests_state)"
    by code_simp
  have p9: "0 < span_seconds (retained 576000 nine_requests_state)"
    by code_simp
  have q9: "to_double (to_double (of_nat (length (retained 576000 nine_requests_state))) /
      span_seconds (retained 576000 nine_requests_state)) = 125 / 8 + 1 / 2 ^ 49"
    by code_simp
  from rate_is_count_over_span [OF n9 p9]
  have nine: "fst (calculate_arrival_rate 576000 nine_requests_state) =
      Inr (125 / 8 + 1 / 2 ^ 49)"
    by (simp only: q9)
  from n p two n9 p9 nine show ?thesis by blast
qed

text \<open>
  Claim C1 as stated fails: two requests one second apart, read at the time of the second,
  are both retained, their span is one second, and the estimator returns 2.0, not
  \<open>(2 - 1) / 1\<close>, whether that quotient is taken exactly or in floating point.
\<close>

theorem rate_is_not_count_minus_one_over_span:
  "2 \<le> length (retained 1000000 two_entries_state) \<and>
   0 < span_seconds (retained 1000000 two_entries_state) \<and>
   fst (calculate_arrival_rate 1000000 two_entries_state) = Inr 2 \<and>
   fst (calculate_arrival_rate 1000000 two_entries_state) \<noteq>
     Inr ((of_nat (length (retained 1000000 two_entries_state)) - 1) /
          span_seconds (retained 1000000 two_entries_state)) \<and>
   fst (calculate_arrival_rate 1000000 two_entries_state) \<noteq>
     Inr (to_double (to_double (of_nat (length (retained 1000000 two_entries_state)) - 1) /
          span_seconds (retained 1000000 two_entries_state)))"
  by (simp add: calculate_arrival_rate_value retained_two_entries span_one_second
      to_double_exact)

text \<open>
  Claim C7: the rate estimator is total and never divides by zero. Division is modelled by
  \<open>truediv\<close>, which returns \<open>ZeroDivisionError\<close> on a zero divisor, and indexing by
  \<open>index_first\<close> and \<open>index_last\<close>, which return \<open>IndexError\<close> on an empty list; the
  estimator returns a rate (never an error) for every window and every clock reading. It
  returns 0 when fewer than two entries are retained, and 0 when the span of the retained
  entries is 0.
\<close>

theorem rate_total_and_zero_cases:
  "(\<exists>r. fst (calculate_arrival_rate now s) = Inr r) \<and>
   (length (retained now s) < 2 \<longrightarrow> fst (calculate_arrival_rate now s) = Inr 0) \<and>
   (span_seconds (retained now s) = 0 \<longrightarrow> fst (calculate_arrival_rate now s) = Inr 0)"
  by (simp add: calculate_arrival_rate_value)

theorem rate_total_and_zero_cases_witness:
  "length (retained 5 empty_state) < 2 \<and>
   fst (calculate_arrival_rate 5 empty_state) = Inr 0 \<and>
   2 \<le> length (retained 7 simultaneous_state) \<and>
   span_seconds (retained 7 simultaneous_state) = 0 \<and>
   fst (calculate_arrival_rate 7 simultaneous_state) = Inr 0"
proof -
  have a: "length (retained 5 empty_state) < 2"
    by (simp add: retained_empty)
  have b: "2 \<le> length (retained 7 simultaneous_state)"
    by (simp add: retained_simultaneous)
  have c: "span_seconds (retained 7 simultaneous_state) = 0"
    by (simp add: retained_simultaneous span_seconds_def)
  from rate_total_and_zero_cases [of 5 empty_state] a
  have d: "fst (calculate_arrival_rate 5 empty_state) = Inr 0" by blast
  from rate_total_and_zero_cases [of 7 simultaneous_state] c
  have e: "fst (calculate_arrival_rate 7 simultaneous_state) = Inr 0" by blast
  from a b c d e show ?thesis by blast
qed

text \<open>
  Claim C5: after the prune that every rate computation performs, every retained entry is at
  most \<open>REQUEST_LOG_WINDOW\<close> seconds old at the clock reading of the prune; the retained
  entries are exactly the entries that are not strictly older than the window, each as many
  times as it occurred; they keep their order (the retained window is a subsequence of the
  old one); every removed entry is strictly older than every retained one; and on a window in
  time order, which is the window of the specification's data model, the removed entries are
  a prefix: the retained window is the old one with its oldest end dropped. (A decision cycle
  keeps the window in time order as long as the clock does not run backwards:
  \<open>handle_request_keeps_time_order\<close>.)
\<close>

theorem prune_keeps_exactly_the_window:
  "(\<forall>e\<in>set (retained now s). age now e \<le> of_int REQUEST_LOG_WINDOW) \<and>
   mset (retained now s) =
     filter_mset (\<lambda>e. \<not> of_int REQUEST_LOG_WINDOW < age now e) (mset (REQUEST_LOG s)) \<and>
   subseq (retained now s) (REQUEST_LOG s) \<and>
   (\<forall>r\<in>set (REQUEST_LOG s). \<forall>k\<in>set (retained now s).
      of_int REQUEST_LOG_WINDOW < age now r \<longrightarrow> timestamp r < timestamp k) \<and>
   (sorted (map timestamp (REQUEST_LOG s)) \<longrightarrow>
      retained now s = dropWhile (\<lambda>e. of_int REQUEST_LOG_WINDOW < age now e) (REQUEST_LOG s) \<and>
      suffix (retained now s) (REQUEST_LOG s))"
proof -
  let ?W = "of_int REQUEST_LOG_WINDOW :: rat"
  let ?keep = "\<lambda>e. age now e \<le> ?W"
  have not_less: "(\<lambda>e. \<not> ?W < age now e) = ?keep"
    by (simp add: fun_eq_iff not_less)
  have a: "\<forall>e\<in>set (retained now s). age now e \<le> ?W"
    by (simp add: retained_filter)
  have b: "mset (retained now s) = filter_mset (\<lambda>e. \<not> ?W < age now e) (mset (REQUEST_LOG s))"
    unfolding not_less by (simp add: retained_filter)
  have c: "subseq (retained now s) (REQUEST_LOG s)"
    by (simp add: retained_filter)
  have d: "\<forall>r\<in>set (REQUEST_LOG s). \<forall>k\<in>set (retained now s).
             ?W < age now r \<longrightarrow> timestamp r < timestamp k"
  proof (intro ballI impI)
    fix r k
    assume "k \<in> set (retained now s)" and old: "?W < age now r"
    then have "age now k \<le> ?W" by (simp add: retained_filter)
    then have "now - timestamp k \<le> timedelta_seconds REQUEST_LOG_WINDOW"
      by (simp only: age_le_iff)
    moreover from old have "\<not> now - timestamp r \<le> timedelta_seconds REQUEST_LOG_WINDOW"
      by (simp only: age_le_iff [symmetric] not_le)
    ultimately show "timestamp r < timestamp k" by linarith
  qed
  have e: "retained now s = dropWhile (\<lambda>e. ?W < age now e) (REQUEST_LOG s) \<and>
      suffix (retained now s) (REQUEST_LOG s)" if srt: "sorted (map timestamp (REQUEST_LOG s))"
  proof -
    have mono: "\<And>a b. ?keep a \<Longrightarrow> timestamp a \<le> timestamp b \<Longrightarrow> ?keep b"
      by (simp add: age_le_iff)
    have "filter ?keep (REQUEST_LOG s) = dropWhile (\<lambda>x. \<not> ?keep x) (REQUEST_LOG s)"
      using srt mono by (rule filter_sorted_dropWhile)
    then have eq: "retained now s = dropWhile (\<lambda>e. ?W < age now e) (REQUEST_LOG s)"
      by (simp add: retained_filter not_le)
    show ?thesis
      by (rule conjI, rule eq, subst eq, rule suffix_dropWhile)
  qed
  from a b c d e show ?thesis by blast
qed

theorem prune_keeps_exactly_the_window_witness:
  "sorted (map timestamp (REQUEST_LOG aged_state)) \<and>
   Entry 0 \<in> set (REQUEST_LOG aged_state) \<and>
   of_int REQUEST_LOG_WINDOW < age 100000000 (Entry 0) \<and>
   Entry 50000000 \<in> set (retained 100000000 aged_state) \<and>
   age 100000000 (Entry 50000000) \<le> of_int REQUEST_LOG_WINDOW \<and>
   timestamp (Entry 0) < timestamp (Entry 50000000) \<and>
   retained 100000000 aged_state = [Entry 50000000, Entry 100000000] \<and>
   suffix (retained 100000000 aged_state) (REQUEST_LOG aged_state)"
proof -
  note inst = prune_keeps_exactly_the_window [of 100000000 aged_state]
  have srt: "sorted (map timestamp (REQUEST_LOG aged_state))"
    by (simp add: aged_state_def)
  have old: "Entry 0 \<in> set (REQUEST_LOG aged_state)"
    by (simp add: aged_state_def)
  have too_old: "of_int REQUEST_LOG_WINDOW < age 100000000 (Entry 0)"
    unfolding not_le [symmetric] age_le_iff
    by (simp add: timedelta_seconds_def REQUEST_LOG_WINDOW_def)
  have kept: "Entry 50000000 \<in> set (retained 100000000 aged_state)"
    by (simp add: retained_aged)
  from inst kept have young: "age 100000000 (Entry 50000000) \<le> of_int REQUEST_LOG_WINDOW"
    by blast
  from inst old kept too_old have older: "timestamp (Entry 0) < timestamp (Entry 50000000)"
    by blast
  from inst srt have suf: "suffix (retained 100000000 aged_state) (REQUEST_LOG aged_state)"
    by blast
  from srt old too_old kept young older suf retained_aged show ?thesis
    by blast
qed

section \<open>Target selector\<close>

text \<open>
  Claim C2: target selection is a function of the arrival rate alone (it takes no state and
  returns none, and it yields a tier for every rate): \<open>small\<close> up to \<open>T1 - H\<close>,
  \<open>medium\<close> above that up to \<open>T2 - H\<close>, \<open>large\<close> above; with the configured
  \<open>T1 = 5\<close>, \<open>T2 = 10\<close>, \<open>H = 2\<close> the rates 0 and 3.0 give small, 3.1 and 8.0 medium,
  8.1 and 100 large.
\<close>

theorem choose_target_group_bands:
  "(r \<le> of_int (THRESHOLD_T1 - HYSTERESIS) \<longrightarrow> choose_target_group r = ''small'') \<and>
   (of_int (THRESHOLD_T1 - HYSTERESIS) < r \<and> r \<le> of_int (THRESHOLD_T2 - HYSTERESIS)
      \<longrightarrow> choose_target_group r = ''medium'') \<and>
   (of_int (THRESHOLD_T2 - HYSTERESIS) < r \<longrightarrow> choose_target_group r = ''large'') \<and>
   THRESHOLD_T1 = 5 \<and> THRESHOLD_T2 = 10 \<and> HYSTERESIS = 2 \<and>
   choose_target_group 0 = ''small'' \<and> choose_target_group 3 = ''small'' \<and>
   choose_target_group (31 / 10) = ''medium'' \<and> choose_target_group 8 = ''medium'' \<and>
   choose_target_group (81 / 10) = ''large'' \<and> choose_target_group 100 = ''large''"
  by (simp add: choose_target_group_def THRESHOLD_T1_def THRESHOLD_T2_def HYSTERESIS_def)

theorem choose_target_group_bands_witness:
  "(2::rat) \<le> of_int (THRESHOLD_T1 - HYSTERESIS) \<and> choose_target_group 2 = ''small'' \<and>
   of_int (THRESHOLD_T1 - HYSTERESIS) < (6::rat) \<and> (6::rat) \<le> of_int (THRESHOLD_T2 - HYSTERESIS) \<and>
   choose_target_group 6 = ''medium'' \<and>
   of_int (THRESHOLD_T2 - HYSTERESIS) < (9::rat) \<and> choose_target_group 9 = ''large''"
proof -
  have lo: "(2::rat) \<le> of_int (THRESHOLD_T1 - HYSTERESIS)"
    by (simp add: THRESHOLD_T1_def HYSTERESIS_def)
  have mid: "of_int (THRESHOLD_T1 - HYSTERESIS) < (6::rat) \<and>
             (6::rat) \<le> of_int (THRESHOLD_T2 - HYSTERESIS)"
    by (simp add: THRESHOLD_T1_def THRESHOLD_T2_def HYSTERESIS_def)
  have hi: "of_int (THRESHOLD_T2 - HYSTERESIS) < (9::rat)"
    by (simp add: THRESHOLD_T2_def HYSTERESIS_def)
  from choose_target_group_bands [of 2] lo have "choose_target_group 2 = ''small''"
    by blast
  moreover from choose_target_group_bands [of 6] mid have "choose_target_group 6 = ''medium''"
    by blast
  moreover from choose_target_group_bands [of 9] hi have "choose_target_group 9 = ''large''"
    by blast
  ultimately show ?thesis using lo mid hi by blast
qed

section \<open>Scaling actuator\<close>

lemma issued_calls_simps [simp]:
  "issued_calls [] = []"
  "issued_calls (DescribeInstances x # tr) = issued_calls tr"
  "issued_calls (StartInstances x # tr) = StartInstances x # issued_calls tr"
  "issued_calls (StopInstances x # tr) = StopInstances x # issued_calls tr"
  "issued_calls (LogAlready x st # tr) = issued_calls tr"
  "issued_calls (LogCooldown # tr) = issued_calls tr"
  "issued_calls (LogStarted x # tr) = issued_calls tr"
  "issued_calls (LogStopped x # tr) = issued_calls tr"
  "issued_calls (LogApiError e # tr) = issued_calls tr"
  "issued_calls (LogRequestFailed e # tr) = issued_calls tr"
  "issued_calls (LogStatusFailed g e # tr) = issued_calls tr"
  "issued_calls (tr @ tr') = issued_calls tr @ issued_calls tr'"
  by (simp_all add: issued_calls_def)

lemma transitions_simps [simp]:
  "transitions x [] = 0"
  "transitions x (DescribeInstances y # tr) = transitions x tr"
  "transitions x (StartInstances y # tr) = transitions x tr"
  "transitions x (StopInstances y # tr) = transitions x tr"
  "transitions x (LogAlready y st # tr) = transitions x tr"
  "transitions x (LogCooldown # tr) = transitions x tr"
  "transitions x (LogStarted y # tr) = (if y = x then 1 else 0) + transitions x tr"
  "transitions x (LogStopped y # tr) = (if y = x then 1 else 0) + transitions x tr"
  "transitions x (LogApiError e # tr) = transitions x tr"
  "transitions x (LogRequestFailed e # tr) = transitions x tr"
  "transitions x (LogStatusFailed g e # tr) = transitions x tr"
  "transitions x (tr @ tr') = transitions x tr + transitions x tr'"
  by (simp_all add: transitions_def)

lemma manage_instances_describe_raises:
  "describe_result env = Inl e \<Longrightarrow>
   manage_instances operation instance_ids env s =
     (Inl e, s, [DescribeInstances instance_ids, LogApiError e])"
  by (simp add: manage_instances_def)

lemma manage_instances_already:
  "describe_result env = Inr current_state \<Longrightarrow>
   (operation = ''start'' \<and> current_state = ''running'') \<or>
   (operation = ''stop'' \<and> current_state = ''stopped'') \<Longrightarrow>
   manage_instances operation instance_ids env s =
     (Inr (), s, [DescribeInstances instance_ids, LogAlready instance_ids current_state])"
  by (simp add: manage_instances_def)

lemma manage_instances_cooldown:
  "describe_result env = Inr current_state \<Longrightarrow>
   \<not> ((operation = ''start'' \<and> current_state = ''running'') \<or>
      (operation = ''stop'' \<and> current_state = ''stopped'')) \<Longrightarrow>
   cooldown_active env s \<Longrightarrow>
   manage_instances operation instance_ids env s =
     (Inr (), s, [DescribeInstances instance_ids, LogCooldown])"
  by (simp add: manage_instances_def)

lemma manage_instances_start:
  "describe_result env = Inr current_state \<Longrightarrow> current_state \<noteq> ''running'' \<Longrightarrow>
   \<not> cooldown_active env s \<Longrightarrow>
   manage_instances ''start'' instance_ids env s =
     (case op_result env of
        Inl e \<Rightarrow> (Inl e, s,
          [DescribeInstances instance_ids, StartInstances instance_ids, LogApiError e])
      | Inr _ \<Rightarrow> (Inr (), s\<lparr>LAST_SCALING_TIME := Some (now_after env)\<rparr>,
          [DescribeInstances instance_ids, StartInstances instance_ids, LogStarted instance_ids]))"
  by (simp add: manage_instances_def)

lemma manage_instances_stop:
  "describe_result env = Inr current_state \<Longrightarrow> current_state \<noteq> ''stopped'' \<Longrightarrow>
   \<not> cooldown_active env s \<Longrightarrow>
   manage_instances ''stop'' instance_ids env s =
     (case op_result env of
        Inl e \<Rightarrow> (Inl e, s,
          [DescribeInstances instance_ids, StopInstances instance_ids, LogApiError e])
      | Inr _ \<Rightarrow> (Inr (), s\<lparr>LAST_SCALING_TIME := Some (now_after env)\<rparr>,
          [DescribeInstances instance_ids, StopInstances instance_ids, LogStopped instance_ids]))"
  by (simp add: manage_instances_def)

lemma manage_instances_frozen:
  assumes "cooldown_active env s"
  shows "fst (snd (manage_instances operation instance_ids env s)) = s \<and>
         issued_calls (snd (snd (manage_instances operation instance_ids env s))) = [] \<and>
         transitions x (snd (snd (manage_instances operation instance_ids env s))) = 0"
  using assms by (simp add: manage_instances_def split: sum.splits)

lemma manage_instances_outcome:
  assumes op: "operation = ''start'' \<or> operation = ''stop''"
    and m: "manage_instances operation instance_ids env s = (r, s', tr)"
  shows "(s' = s \<and> issued_calls tr = [] \<and> (\<forall>x. transitions x tr = 0)) \<or>
         ((\<exists>e. r = Inl e) \<and> s' = s \<and> length (issued_calls tr) = 1 \<and> (\<forall>x. transitions x tr = 0)) \<or>
         (r = Inr () \<and> s' = s\<lparr>LAST_SCALING_TIME := Some (now_after env)\<rparr> \<and>
          length (issued_calls tr) = 1 \<and>
          (\<forall>x. transitions x tr = (if x = instance_ids then 1 else 0)))"
proof (cases "describe_result env")
  case (Inl e)
  from manage_instances_describe_raises [OF Inl, of operation instance_ids s] m
  have "s' = s" "tr = [DescribeInstances instance_ids, LogApiError e]" by simp_all
  then show ?thesis by simp
next
  case (Inr current_state)
  note d = this
  show ?thesis
  proof (cases "(operation = ''start'' \<and> current_state = ''running'') \<or>
                (operation = ''stop'' \<and> current_state = ''stopped'')")
    case True
    from manage_instances_already [OF d True, of instance_ids s] m
    have "s' = s" "tr = [DescribeInstances instance_ids, LogAlready instance_ids current_state]"
      by simp_all
    then show ?thesis by simp
  next
    case False
    note nd = this
    show ?thesis
    proof (cases "cooldown_active env s")
      case True
      from manage_instances_cooldown [OF d nd True, of instance_ids] m
      have "s' = s" "tr = [DescribeInstances instance_ids, LogCooldown]" by simp_all
      then show ?thesis by simp
    next
      case False
      note nc = this
      from op show ?thesis
      proof
        assume o: "operation = ''start''"
        with nd have st: "current_state \<noteq> ''running''" by simp
        show ?thesis
        proof (cases "op_result env")
          case (Inl e)
          from manage_instances_start [OF d st nc, of instance_ids] m o Inl
          have "r = Inl e" "s' = s"
            "tr = [DescribeInstances instance_ids, StartInstances instance_ids, LogApiError e]"
            by simp_all
          then show ?thesis by simp
        next
          case (Inr u)
          from manage_instances_start [OF d st nc, of instance_ids] m o Inr
          have "r = Inr ()" "s' = s\<lparr>LAST_SCALING_TIME := Some (now_after env)\<rparr>"
            "tr = [DescribeInstances instance_ids, StartInstances instance_ids, LogStarted instance_ids]"
            by simp_all
          then show ?thesis by simp
        qed
      next
        assume o: "operation = ''stop''"
        with nd have st: "current_state \<noteq> ''stopped''" by simp
        show ?thesis
        proof (cases "op_result env")
          case (Inl e)
          from manage_instances_stop [OF d st nc, of instance_ids] m o Inl
          have "r = Inl e" "s' = s"
            "tr = [DescribeInstances instance_ids, StopInstances instance_ids, LogApiError e]"
            by simp_all
          then show ?thesis by simp
        next
          case (Inr u)
          from manage_instances_stop [OF d st nc, of instance_ids] m o Inr
          have "r = Inr ()" "s' = s\<lparr>LAST_SCALING_TIME := Some (now_after env)\<rparr>"
            "tr = [DescribeInstances instance_ids, StopInstances instance_ids, LogStopped instance_ids]"
            by simp_all
          then show ?thesis by simp
        qed
      qed
    qed
  qed
qed

text \<open>
  Claim C4: reconciling a tier whose observed state is already the desired one (the target
  tier observed \<open>running\<close>, or another tier observed \<open>stopped\<close>) only describes the
  instances and logs that they are already in that state: the trace holds no start or stop
  call, and the state, \<open>LAST_SCALING_TIME\<close> with it, is unchanged.
\<close>

theorem desired_state_is_noop:
  assumes "describe_result env = Inr current_state"
    and "(grp = target_group \<and> current_state = ''running'') \<or>
         (grp \<noteq> target_group \<and> current_state = ''stopped'')"
  shows "manage_instances (if grp = target_group then ''start'' else ''stop'') instance_ids env s =
           (Inr (), s, [DescribeInstances instance_ids, LogAlready instance_ids current_state]) \<and>
         issued_calls (snd (snd (manage_instances
           (if grp = target_group then ''start'' else ''stop'') instance_ids env s))) = [] \<and>
         LAST_SCALING_TIME (fst (snd (manage_instances
           (if grp = target_group then ''start'' else ''stop'') instance_ids env s))) =
           LAST_SCALING_TIME s"
proof -
  let ?op = "if grp = target_group then ''start'' else ''stop''"
  have "(?op = ''start'' \<and> current_state = ''running'') \<or>
        (?op = ''stop'' \<and> current_state = ''stopped'')"
    using assms(2) by auto
  from manage_instances_already [OF assms(1) this, of instance_ids s]
  show ?thesis by simp
qed

theorem desired_state_is_noop_witness:
  "describe_result (observed_env ''running'') = Inr ''running'' \<and>
   manage_instances ''start'' [''i-0c57481c98da9fe7e''] (observed_env ''running'') after_first_cycle =
     (Inr (), after_first_cycle,
      [DescribeInstances [''i-0c57481c98da9fe7e''],
       LogAlready [''i-0c57481c98da9fe7e''] ''running'']) \<and>
   describe_result (observed_env ''stopped'') = Inr ''stopped'' \<and>
   manage_instances ''stop'' [''i-0adefdc2a894f3c7b''] (observed_env ''stopped'') after_first_cycle =
     (Inr (), after_first_cycle,
      [DescribeInstances [''i-0adefdc2a894f3c7b''],
       LogAlready [''i-0adefdc2a894f3c7b''] ''stopped''])"
proof -
  have r: "describe_result (observed_env ''running'') = Inr ''running''"
    and t: "describe_result (observed_env ''stopped'') = Inr ''stopped''"
    by (simp_all add: observed_env_def)
  from desired_state_is_noop [of "observed_env ''running''" "''running''" "''small''" "''small''"
      "[''i-0c57481c98da9fe7e'']" after_first_cycle, OF r]
  have a: "manage_instances ''start'' [''i-0c57481c98da9fe7e''] (observed_env ''running'')
      after_first_cycle =
     (Inr (), after_first_cycle,
      [DescribeInstances [''i-0c57481c98da9fe7e''],
       LogAlready [''i-0c57481c98da9fe7e''] ''running''])"
    by simp
  from desired_state_is_noop [of "observed_env ''stopped''" "''stopped''" "''medium''" "''small''"
      "[''i-0adefdc2a894f3c7b'']" after_first_cycle, OF t]
  have b: "manage_instances ''stop'' [''i-0adefdc2a894f3c7b''] (observed_env ''stopped'')
      after_first_cycle =
     (Inr (), after_first_cycle,
      [DescribeInstances [''i-0adefdc2a894f3c7b''],
       LogAlready [''i-0adefdc2a894f3c7b''] ''stopped''])"
    by simp
  from r t a b show ?thesis by simp
qed

text \<open>
  Claim C8: when a fleet-controller call made by a reconciliation raises (the describe call,
  or the start or stop call that the reconciliation went on to issue), \<open>manage_instances\<close>
  returns that error to its caller; and whenever it returns an error the state,
  \<open>LAST_SCALING_TIME\<close> with it, is unchanged and the trace shows the describe call once, at
  most one start or stop call, and the error logged last: nothing is tried again.
\<close>

theorem fleet_error_propagates:
  assumes "manage_instances operation instance_ids env s = (r, s', tr)"
  shows "(describe_result env = Inl e \<longrightarrow> r = Inl e) \<and>
         (issued_calls tr \<noteq> [] \<and> op_result env = Inl e \<longrightarrow> r = Inl e) \<and>
         (r = Inl e \<longrightarrow>
            s' = s \<and>
            (tr = [DescribeInstances instance_ids, LogApiError e] \<or>
             tr = [DescribeInstances instance_ids, StartInstances instance_ids, LogApiError e] \<or>
             tr = [DescribeInstances instance_ids, StopInstances instance_ids, LogApiError e]))"
proof (cases "describe_result env")
  case (Inl e')
  from manage_instances_describe_raises [OF Inl, of operation instance_ids s] assms
  have "r = Inl e'" "s' = s" "tr = [DescribeInstances instance_ids, LogApiError e']"
    by simp_all
  with Inl show ?thesis by auto
next
  case (Inr current_state)
  with assms show ?thesis
    by (auto simp add: manage_instances_def split: if_splits sum.splits)
qed

theorem fleet_error_propagates_witness:
  "describe_result describe_fails_env = Inl (ClientError ''RequestLimitExceeded'') \<and>
   manage_instances ''stop'' [''i-0adefdc2a894f3c7b''] describe_fails_env after_first_cycle =
     (Inl (ClientError ''RequestLimitExceeded''), after_first_cycle,
      [DescribeInstances [''i-0adefdc2a894f3c7b''],
       LogApiError (ClientError ''RequestLimitExceeded'')]) \<and>
   op_result start_fails_env = Inl (ClientError ''InsufficientInstanceCapacity'') \<and>
   manage_instances ''start'' [''i-0c57481c98da9fe7e''] start_fails_env empty_state =
     (Inl (ClientError ''InsufficientInstanceCapacity''), empty_state,
      [DescribeInstances [''i-0c57481c98da9fe7e''], StartInstances [''i-0c57481c98da9fe7e''],
       LogApiError (ClientError ''InsufficientInstanceCapacity'')]) \<and>
   issued_calls
     [DescribeInstances [''i-0c57481c98da9fe7e''], StartInstances [''i-0c57481c98da9fe7e''],
      LogApiError (ClientError ''InsufficientInstanceCapacity'')] \<noteq> []"
proof -
  obtain r s' tr where
    a: "manage_instances ''stop'' [''i-0adefdc2a894f3c7b''] describe_fails_env after_first_cycle =
          (r, s', tr)"
    by (cases "manage_instances ''stop'' [''i-0adefdc2a894f3c7b''] describe_fails_env
          after_first_cycle")
  have d: "describe_result describe_fails_env = Inl (ClientError ''RequestLimitExceeded'')"
    by (simp add: describe_fails_env_def)
  from fleet_error_propagates [OF a, of "ClientError ''RequestLimitExceeded''"] d
  have a': "r = Inl (ClientError ''RequestLimitExceeded'')" "s' = after_first_cycle"
    by blast+
  have a'': "tr = [DescribeInstances [''i-0adefdc2a894f3c7b''],
       LogApiError (ClientError ''RequestLimitExceeded'')]"
    using a by (simp add: manage_instances_def describe_fails_env_def)
  obtain r2 s2 tr2 where
    b: "manage_instances ''start'' [''i-0c57481c98da9fe7e''] start_fails_env empty_state =
          (r2, s2, tr2)"
    by (cases "manage_instances ''start'' [''i-0c57481c98da9fe7e''] start_fails_env empty_state")
  have o: "op_result start_fails_env = Inl (ClientError ''InsufficientInstanceCapacity'')"
    by (simp add: start_fails_env_def)
  have b'': "tr2 = [DescribeInstances [''i-0c57481c98da9fe7e''],
       StartInstances [''i-0c57481c98da9fe7e''],
       LogApiError (ClientError ''InsufficientInstanceCapacity'')]"
    using b by (simp add: manage_instances_def start_fails_env_def cooldown_active_def
        empty_state_def)
  then have i: "issued_calls tr2 \<noteq> []" by simp
  from fleet_error_propagates [OF b, of "ClientError ''InsufficientInstanceCapacity''"] o i
  have b': "r2 = Inl (ClientError ''InsufficientInstanceCapacity'')" "s2 = empty_state"
    by blast+
  from a a' a'' b b' b'' d o i show ?thesis by simp
qed

section \<open>Decision cycle\<close>

lemma handle_request_loop_step:
  assumes "manage_instances (if grp = target_group then ''start'' else ''stop'')
             (ids info) (envs grp) s = (r, s', tr)"
  shows "handle_request_loop target_group ((grp, info) # rest) envs s =
          (case r of
             Inl e \<Rightarrow> (Inl e, s', tr)
           | Inr _ \<Rightarrow> (fst (handle_request_loop target_group rest envs s'),
                       fst (snd (handle_request_loop target_group rest envs s')),
                       tr @ snd (snd (handle_request_loop target_group rest envs s'))))"
  using assms by (simp split: sum.splits prod.splits)

lemma handle_request_loop_frozen:
  assumes "LAST_SCALING_TIME s = Some t"
    and "\<forall>g\<in>set (map fst groups). now_check (envs g) - t < timedelta_seconds COOLDOWN_PERIOD"
  shows "fst (snd (handle_request_loop target_group groups envs s)) = s \<and>
         issued_calls (snd (snd (handle_request_loop target_group groups envs s))) = [] \<and>
         (\<forall>x. transitions x (snd (snd (handle_request_loop target_group groups envs s))) = 0)"
  using assms
proof (induction groups)
  case Nil
  then show ?case by simp
next
  case (Cons a rest)
  obtain grp info where a: "a = (grp, info)" by (cases a)
  let ?op = "if grp = target_group then ''start'' else ''stop''"
  obtain r s' tr where m: "manage_instances ?op (ids info) (envs grp) s = (r, s', tr)"
    by (cases "manage_instances ?op (ids info) (envs grp) s")
  note step = handle_request_loop_step [where envs = envs and grp = grp and rest = rest, OF m]
  have "cooldown_active (envs grp) s"
    using Cons.prems a by (simp add: cooldown_active_def)
  from manage_instances_frozen [OF this, of ?op "ids info"] m
  have fr: "s' = s" "issued_calls tr = []" "\<And>x. transitions x tr = 0"
    by simp_all
  have ih: "fst (snd (handle_request_loop target_group rest envs s)) = s \<and>
         issued_calls (snd (snd (handle_request_loop target_group rest envs s))) = [] \<and>
         (\<forall>x. transitions x (snd (snd (handle_request_loop target_group rest envs s))) = 0)"
    using Cons.IH Cons.prems by simp
  show ?case
    unfolding a step
    using fr ih by (cases r) simp_all
qed

lemma handle_request_loop_one_call:
  assumes "\<forall>g\<in>set (map fst groups). \<forall>g'\<in>set (map fst groups).
             now_check (envs g') - now_after (envs g) < timedelta_seconds COOLDOWN_PERIOD"
  shows "length (issued_calls (snd (snd (handle_request_loop target_group groups envs s)))) \<le> 1"
  using assms
proof (induction groups arbitrary: s)
  case Nil
  then show ?case by simp
next
  case (Cons a rest)
  obtain grp info where a: "a = (grp, info)" by (cases a)
  let ?op = "if grp = target_group then ''start'' else ''stop''"
  obtain r s' tr where m: "manage_instances ?op (ids info) (envs grp) s = (r, s', tr)"
    by (cases "manage_instances ?op (ids info) (envs grp) s")
  note step = handle_request_loop_step [where envs = envs and grp = grp and rest = rest, OF m]
  have op: "?op = ''start'' \<or> ?op = ''stop''" by simp
  have ih: "length (issued_calls (snd (snd (handle_request_loop target_group rest envs s'')))) \<le> 1"
    for s''
    using Cons.IH Cons.prems by simp
  from manage_instances_outcome [OF op m]
  consider (quiet) "s' = s" "issued_calls tr = []"
    | (raised) e where "r = Inl e" "length (issued_calls tr) = 1"
    | (performed) "r = Inr ()" "s' = s\<lparr>LAST_SCALING_TIME := Some (now_after (envs grp))\<rparr>"
        "length (issued_calls tr) = 1"
    by blast
  then show ?case
  proof cases
    case quiet
    then show ?thesis
      unfolding a step
      using ih [of s'] by (cases r) simp_all
  next
    case raised
    then show ?thesis
      unfolding a step by simp
  next
    case performed
    have "LAST_SCALING_TIME s' = Some (now_after (envs grp))"
      using performed by simp
    moreover have "\<forall>g\<in>set (map fst rest).
        now_check (envs g) - now_after (envs grp) < timedelta_seconds COOLDOWN_PERIOD"
      using Cons.prems a by simp
    ultimately have "issued_calls (snd (snd (handle_request_loop target_group rest envs s'))) = []"
      using handle_request_loop_frozen by blast
    with performed show ?thesis
      unfolding a step by simp
  qed
qed

lemma handle_request_loop_other_tier:
  assumes "x \<notin> set (map (\<lambda>g. ids (snd g)) groups)"
  shows "transitions x (snd (snd (handle_request_loop target_group groups envs s))) = 0"
  using assms
proof (induction groups arbitrary: s)
  case Nil
  then show ?case by simp
next
  case (Cons a rest)
  obtain grp info where a: "a = (grp, info)" by (cases a)
  let ?op = "if grp = target_group then ''start'' else ''stop''"
  obtain r s' tr where m: "manage_instances ?op (ids info) (envs grp) s = (r, s', tr)"
    by (cases "manage_instances ?op (ids info) (envs grp) s")
  note step = handle_request_loop_step [where envs = envs and grp = grp and rest = rest, OF m]
  have op: "?op = ''start'' \<or> ?op = ''stop''" by simp
  have x: "x \<noteq> ids info" using Cons.prems a by auto
  from manage_instances_outcome [OF op m] x
  have "transitions x tr = 0" by auto
  moreover have "transitions x (snd (snd (handle_request_loop target_group rest envs s'))) = 0"
    using Cons.IH Cons.prems by simp
  ultimately show ?case
    unfolding a step by (cases r) simp_all
qed

lemma handle_request_loop_once_per_tier:
  assumes "distinct (map (\<lambda>g. ids (snd g)) groups)"
  shows "transitions x (snd (snd (handle_request_loop target_group groups envs s))) \<le> 1"
  using assms
proof (induction groups arbitrary: s)
  case Nil
  then show ?case by simp
next
  case (Cons a rest)
  obtain grp info where a: "a = (grp, info)" by (cases a)
  let ?op = "if grp = target_group then ''start'' else ''stop''"
  obtain r s' tr where m: "manage_instances ?op (ids info) (envs grp) s = (r, s', tr)"
    by (cases "manage_instances ?op (ids info) (envs grp) s")
  note step = handle_request_loop_step [where envs = envs and grp = grp and rest = rest, OF m]
  have op: "?op = ''start'' \<or> ?op = ''stop''" by simp
  have ih: "transitions x (snd (snd (handle_request_loop target_group rest envs s'))) \<le> 1"
    using Cons.IH Cons.prems by simp
  show ?case
  proof (cases "x = ids info")
    case True
    then have "x \<notin> set (map (\<lambda>g. ids (snd g)) rest)"
      using Cons.prems a by auto
    then have "transitions x (snd (snd (handle_request_loop target_group rest envs s'))) = 0"
      by (rule handle_request_loop_other_tier)
    moreover from manage_instances_outcome [OF op m] have "transitions x tr \<le> 1" by auto
    ultimately show ?thesis
      unfolding a step by (cases r) simp_all
  next
    case False
    with manage_instances_outcome [OF op m] have "transitions x tr = 0" by auto
    with ih show ?thesis
      unfolding a step by (cases r) simp_all
  qed
qed

lemma handle_request_loop_cooldown_state:
  "(LAST_SCALING_TIME (fst (snd (handle_request_loop target_group groups envs s)))
      = LAST_SCALING_TIME s \<and>
    (\<forall>x. transitions x (snd (snd (handle_request_loop target_group groups envs s))) = 0)) \<or>
   (\<exists>g\<in>set (map fst groups).
      LAST_SCALING_TIME (fst (snd (handle_request_loop target_group groups envs s)))
        = Some (now_after (envs g)))"
proof (induction groups arbitrary: s)
  case Nil
  then show ?case by simp
next
  case (Cons a rest)
  obtain grp info where a: "a = (grp, info)" by (cases a)
  let ?op = "if grp = target_group then ''start'' else ''stop''"
  obtain r s' tr where m: "manage_instances ?op (ids info) (envs grp) s = (r, s', tr)"
    by (cases "manage_instances ?op (ids info) (envs grp) s")
  note step = handle_request_loop_step [where envs = envs and grp = grp and rest = rest, OF m]
  have op: "?op = ''start'' \<or> ?op = ''stop''" by simp
  let ?L = "handle_request_loop target_group rest envs s'"
  from manage_instances_outcome [OF op m]
  consider (same) "s' = s" "\<forall>x. transitions x tr = 0"
    | (performed) "r = Inr ()" "s' = s\<lparr>LAST_SCALING_TIME := Some (now_after (envs grp))\<rparr>"
    by blast
  then show ?case
  proof cases
    case same
    show ?thesis
    proof (cases r)
      case (Inl e)
      with same show ?thesis
        unfolding a step by simp
    next
      case (Inr u)
      from Cons.IH [of s'] same Inr show ?thesis
        unfolding a step by auto
    qed
  next
    case performed
    have l: "LAST_SCALING_TIME s' = Some (now_after (envs grp))" using performed by simp
    from Cons.IH [of s'] l performed(1) show ?thesis
      unfolding a step by auto
  qed
qed

lemma calculate_arrival_rate_eq:
  "calculate_arrival_rate now s =
     (Inr (rate_value (retained now s)), s\<lparr>REQUEST_LOG := retained now s\<rparr>)"
proof -
  have "snd (calculate_arrival_rate now s) = s\<lparr>REQUEST_LOG := retained now s\<rparr>"
    unfolding retained_filter age_def
    by (simp add: calculate_arrival_rate_def Let_def split: sum.splits)
  moreover have "fst (calculate_arrival_rate now s) = Inr (rate_value (retained now s))"
    by (simp add: calculate_arrival_rate_value rate_value_def)
  ultimately show ?thesis by (simp add: prod_eq_iff)
qed

lemma handle_request_eq:
  "handle_request env s =
    (case fst (cycle_loop env s) of
       Inl e \<Rightarrow> (Failure e, fst (snd (cycle_loop env s)),
                  snd (snd (cycle_loop env s)) @ [LogRequestFailed e])
     | Inr _ \<Rightarrow> (Success (choose_target_group (cycle_rate env s)) (round2 (cycle_rate env s)),
                  fst (snd (cycle_loop env s)), snd (snd (cycle_loop env s))))"
  by (simp add: handle_request_def Let_def calculate_arrival_rate_eq cycle_loop_def
      cycle_rate_def appended_def split: prod.splits sum.splits)

lemma cycle_state_eq: "cycle_state env s = fst (snd (cycle_loop env s))"
  by (simp add: cycle_state_def handle_request_eq split: sum.splits)

lemma cycle_trace_issued:
  "issued_calls (cycle_trace env s) = issued_calls (snd (snd (cycle_loop env s)))"
  by (simp add: cycle_trace_def handle_request_eq split: sum.splits)

lemma cycle_trace_transitions:
  "transitions x (cycle_trace env s) = transitions x (snd (snd (cycle_loop env s)))"
  by (simp add: cycle_trace_def handle_request_eq split: sum.splits)

lemma distinct_group_ids: "distinct (map (\<lambda>g. ids (snd g)) INSTANCE_GROUPS)"
  by (simp add: INSTANCE_GROUPS_def)

lemma two_cycles_one_transition:
  assumes sep: "\<forall>g\<in>set group_names. \<forall>g'\<in>set group_names.
      now_check (tier_env env2 g') - now_after (tier_env env1 g)
        < timedelta_seconds COOLDOWN_PERIOD"
  shows "transitions x (cycle_trace env1 s) + transitions x (cycle_trace env2 (cycle_state env1 s)) \<le> 1"
proof -
  let ?s1 = "cycle_state env1 s"
  have one1: "transitions x (cycle_trace env1 s) \<le> 1"
    unfolding cycle_trace_transitions cycle_loop_def
    by (rule handle_request_loop_once_per_tier [OF distinct_group_ids])
  have one2: "transitions x (cycle_trace env2 ?s1) \<le> 1"
    unfolding cycle_trace_transitions cycle_loop_def
    by (rule handle_request_loop_once_per_tier [OF distinct_group_ids])
  from handle_request_loop_cooldown_state
    [of "choose_target_group (cycle_rate env1 s)" INSTANCE_GROUPS "tier_env env1"
        "(appended env1 s)\<lparr>REQUEST_LOG := retained (now_rate env1) (appended env1 s)\<rparr>"]
  have "transitions x (cycle_trace env1 s) = 0 \<or>
        (\<exists>g\<in>set group_names. LAST_SCALING_TIME ?s1 = Some (now_after (tier_env env1 g)))"
    unfolding cycle_trace_transitions cycle_state_eq cycle_loop_def group_names_def
    by fast
  then consider (none) "transitions x (cycle_trace env1 s) = 0"
    | (some) g where "g \<in> set group_names"
        "LAST_SCALING_TIME ?s1 = Some (now_after (tier_env env1 g))"
    by auto
  then show ?thesis
  proof cases
    case none
    with one2 show ?thesis by simp
  next
    case some
    have "\<forall>g'\<in>set (map fst INSTANCE_GROUPS).
        now_check (tier_env env2 g') - now_after (tier_env env1 g)
          < timedelta_seconds COOLDOWN_PERIOD"
      using sep some(1) by (auto simp add: group_names_def)
    moreover have "LAST_SCALING_TIME ((appended env2 ?s1)\<lparr>REQUEST_LOG :=
        retained (now_rate env2) (appended env2 ?s1)\<rparr>) = Some (now_after (tier_env env1 g))"
      using some(2) by (simp add: appended_def)
    ultimately have "transitions x (cycle_trace env2 ?s1) = 0"
      unfolding cycle_trace_transitions cycle_loop_def
      using handle_request_loop_frozen by blast
    with one1 show ?thesis by simp
  qed
qed

subsection \<open>The request window across cycles\<close>

lemma manage_instances_log:
  "REQUEST_LOG (fst (snd (manage_instances operation instance_ids env s))) = REQUEST_LOG s"
proof (cases "describe_result env")
  case (Inl e)
  then show ?thesis by (simp add: manage_instances_def)
next
  case (Inr current_state)
  then show ?thesis by (simp add: manage_instances_def split: sum.splits)
qed

lemma handle_request_loop_log:
  "REQUEST_LOG (fst (snd (handle_request_loop target_group groups envs s))) = REQUEST_LOG s"
proof (induction groups arbitrary: s)
  case Nil
  then show ?case by simp
next
  case (Cons a rest)
  obtain grp info where a: "a = (grp, info)" by (cases a)
  let ?op = "if grp = target_group then ''start'' else ''stop''"
  obtain r s' tr where m: "manage_instances ?op (ids info) (envs grp) s = (r, s', tr)"
    by (cases "manage_instances ?op (ids info) (envs grp) s")
  note step = handle_request_loop_step [where envs = envs and grp = grp and rest = rest, OF m]
  from manage_instances_log [of ?op "ids info" "envs grp" s] m
  have "REQUEST_LOG s' = REQUEST_LOG s" by simp
  with Cons.IH [of s'] show ?case
    unfolding a step by (cases r) simp_all
qed

lemma cycle_state_log:
  "REQUEST_LOG (cycle_state env s) = retained (now_rate env) (appended env s)"
  by (simp add: cycle_state_eq cycle_loop_def handle_request_loop_log)

lemma handle_request_keeps_time_order:
  assumes "sorted (map timestamp (REQUEST_LOG s))"
    and "\<forall>e\<in>set (REQUEST_LOG s). timestamp e \<le> now_append env"
  shows "sorted (map timestamp (REQUEST_LOG (cycle_state env s)))"
proof -
  have "sorted (map timestamp (REQUEST_LOG (appended env s)))"
    using assms by (simp add: appended_def sorted_append)
  then show ?thesis
    unfolding cycle_state_log retained_filter by (rule sorted_filter)
qed

lemma retained_all:
  assumes "\<forall>e\<in>set (REQUEST_LOG s). now - timestamp e \<le> timedelta_seconds REQUEST_LOG_WINDOW"
  shows "retained now s = REQUEST_LOG s"
proof -
  have "\<forall>e\<in>set (REQUEST_LOG s). age now e \<le> of_int REQUEST_LOG_WINDOW"
    using assms by (simp add: age_le_iff timedelta_seconds_def)
  then show ?thesis by (simp add: retained_filter)
qed

lemma appended_log: "REQUEST_LOG (appended env s) = REQUEST_LOG s @ [Entry (now_append env)]"
  by (simp add: appended_def)

subsection \<open>Concrete cycles\<close>

lemma small_first:
  "handle_request (instant_env 0 ''stopped'' ''stopped'' ''stopped'') empty_state =
    (Success ''small'' 0, after_first_cycle,
     [DescribeInstances [''i-0c57481c98da9fe7e''], StartInstances [''i-0c57481c98da9fe7e''],
      LogStarted [''i-0c57481c98da9fe7e''],
      DescribeInstances [''i-0adefdc2a894f3c7b''], LogAlready [''i-0adefdc2a894f3c7b''] ''stopped'',
      DescribeInstances [''i-0b8e3663a1e20b934''], LogAlready [''i-0b8e3663a1e20b934''] ''stopped''])"
  by code_simp

lemma small_second:
  "handle_request (instant_env 20000000 ''stopped'' ''stopped'' ''stopped'') after_first_cycle =
    (Success ''small'' (to_double (1 / 10)),
     \<lparr>REQUEST_LOG = [Entry 0, Entry 20000000], LAST_SCALING_TIME = Some 20000000\<rparr>,
     [DescribeInstances [''i-0c57481c98da9fe7e''], StartInstances [''i-0c57481c98da9fe7e''],
      LogStarted [''i-0c57481c98da9fe7e''],
      DescribeInstances [''i-0adefdc2a894f3c7b''], LogAlready [''i-0adefdc2a894f3c7b''] ''stopped'',
      DescribeInstances [''i-0b8e3663a1e20b934''], LogAlready [''i-0b8e3663a1e20b934''] ''stopped''])"
  by code_simp

lemma medium_first:
  "handle_request (instant_env 0 ''running'' ''running'' ''stopped'') empty_state =
    (Success ''small'' 0, after_first_cycle,
     [DescribeInstances [''i-0c57481c98da9fe7e''], LogAlready [''i-0c57481c98da9fe7e''] ''running'',
      DescribeInstances [''i-0adefdc2a894f3c7b''], StopInstances [''i-0adefdc2a894f3c7b''],
      LogStopped [''i-0adefdc2a894f3c7b''],
      DescribeInstances [''i-0b8e3663a1e20b934''], LogAlready [''i-0b8e3663a1e20b934''] ''stopped''])"
  by code_simp

lemma medium_second:
  "handle_request (instant_env 20000000 ''running'' ''running'' ''stopped'') after_first_cycle =
    (Success ''small'' (to_double (1 / 10)),
     \<lparr>REQUEST_LOG = [Entry 0, Entry 20000000], LAST_SCALING_TIME = Some 20000000\<rparr>,
     [DescribeInstances [''i-0c57481c98da9fe7e''], LogAlready [''i-0c57481c98da9fe7e''] ''running'',
      DescribeInstances [''i-0adefdc2a894f3c7b''], StopInstances [''i-0adefdc2a894f3c7b''],
      LogStopped [''i-0adefdc2a894f3c7b''],
      DescribeInstances [''i-0b8e3663a1e20b934''], LogAlready [''i-0b8e3663a1e20b934''] ''stopped''])"
  by code_simp

lemma large_first:
  "handle_request (instant_env 0 ''running'' ''stopped'' ''running'') empty_state =
    (Success ''small'' 0, after_first_cycle,
     [DescribeInstances [''i-0c57481c98da9fe7e''], LogAlready [''i-0c57481c98da9fe7e''] ''running'',
      DescribeInstances [''i-0adefdc2a894f3c7b''], LogAlready [''i-0adefdc2a894f3c7b''] ''stopped'',
      DescribeInstances [''i-0b8e3663a1e20b934''], StopInstances [''i-0b8e3663a1e20b934''],
      LogStopped [''i-0b8e3663a1e20b934'']])"
  by code_simp

lemma large_second:
  "handle_request (instant_env 20000000 ''running'' ''stopped'' ''running'') after_first_cycle =
    (Success ''small'' (to_double (1 / 10)),
     \<lparr>REQUEST_LOG = [Entry 0, Entry 20000000], LAST_SCALING_TIME = Some 20000000\<rparr>,
     [DescribeInstances [''i-0c57481c98da9fe7e''], LogAlready [''i-0c57481c98da9fe7e''] ''running'',
      DescribeInstances [''i-0adefdc2a894f3c7b''], LogAlready [''i-0adefdc2a894f3c7b''] ''stopped'',
      DescribeInstances [''i-0b8e3663a1e20b934''], StopInstances [''i-0b8e3663a1e20b934''],
      LogStopped [''i-0b8e3663a1e20b934'']])"
  by code_simp

lemma stop_without_start:
  "handle_request (instant_env 100000 ''running'' ''stopped'' ''stopped'') one_request_state =
    (Success ''large'' 20,
     \<lparr>REQUEST_LOG = [Entry 0, Entry 100000], LAST_SCALING_TIME = Some 100000\<rparr>,
     [DescribeInstances [''i-0c57481c98da9fe7e''], StopInstances [''i-0c57481c98da9fe7e''],
      LogStopped [''i-0c57481c98da9fe7e''],
      DescribeInstances [''i-0adefdc2a894f3c7b''], LogAlready [''i-0adefdc2a894f3c7b''] ''stopped'',
      DescribeInstances [''i-0b8e3663a1e20b934''], LogCooldown])"
  by code_simp

lemma start_without_stop:
  "handle_request (instant_env 0 ''stopped'' ''running'' ''stopped'') empty_state =
    (Success ''small'' 0, after_first_cycle,
     [DescribeInstances [''i-0c57481c98da9fe7e''], StartInstances [''i-0c57481c98da9fe7e''],
      LogStarted [''i-0c57481c98da9fe7e''],
      DescribeInstances [''i-0adefdc2a894f3c7b''], LogCooldown,
      DescribeInstances [''i-0b8e3663a1e20b934''], LogAlready [''i-0b8e3663a1e20b934''] ''stopped''])"
  by code_simp

lemma slow_cycle:
  "handle_request slow_cycle_env empty_state =
    (Success ''small'' 0,
     \<lparr>REQUEST_LOG = [Entry 0], LAST_SCALING_TIME = Some 10000000\<rparr>,
     [DescribeInstances [''i-0c57481c98da9fe7e''], StartInstances [''i-0c57481c98da9fe7e''],
      LogStarted [''i-0c57481c98da9fe7e''],
      DescribeInstances [''i-0adefdc2a894f3c7b''], StopInstances [''i-0adefdc2a894f3c7b''],
      LogStopped [''i-0adefdc2a894f3c7b''],
      DescribeInstances [''i-0b8e3663a1e20b934''], LogCooldown])"
  by code_simp

lemma instant_within:
  "cycles_within_cooldown (instant_env t a b c) (instant_env t' a' b' c') \<longleftrightarrow>
     t' - t < 10000000"
  by (auto simp add: cycles_within_cooldown_def group_names_def INSTANCE_GROUPS_def
      instant_env_def timedelta_seconds_def COOLDOWN_PERIOD_def)

lemma instant_beyond:
  "cycles_beyond_cooldown (instant_env t a b c) (instant_env t' a' b' c') \<longleftrightarrow>
     10000000 < t' - t"
  by (auto simp add: cycles_beyond_cooldown_def group_names_def INSTANCE_GROUPS_def
      instant_env_def timedelta_seconds_def COOLDOWN_PERIOD_def)

subsection \<open>Cooldown across tiers and cycles\<close>

lemma cycle_projections:
  "handle_request env s = (r, s', tr) \<Longrightarrow> cycle_state env s = s' \<and> cycle_trace env s = tr"
  by (simp add: cycle_state_def cycle_trace_def)

lemma manage_instances_performed:
  assumes "0 < transitions x (snd (snd (manage_instances operation instance_ids env s)))"
  shows "LAST_SCALING_TIME (fst (snd (manage_instances operation instance_ids env s))) =
           Some (now_after env)"
proof (cases "describe_result env")
  case (Inl e)
  with assms show ?thesis by (simp add: manage_instances_def)
next
  case (Inr current_state)
  with assms show ?thesis
    by (simp add: manage_instances_def split: if_splits sum.splits)
qed

lemma cycle_one_call:
  assumes "cycles_within_cooldown env env"
  shows "length (issued_calls (cycle_trace env s)) \<le> 1"
proof -
  have "\<forall>g\<in>set (map fst INSTANCE_GROUPS). \<forall>g'\<in>set (map fst INSTANCE_GROUPS).
          now_check (tier_env env g') - now_after (tier_env env g)
            < timedelta_seconds COOLDOWN_PERIOD"
    using assms by (simp add: cycles_within_cooldown_def group_names_def)
  then show ?thesis
    unfolding cycle_trace_issued cycle_loop_def
    by (rule handle_request_loop_one_call)
qed

lemma instant_rate_first:
  assumes "REQUEST_LOG s = []"
  shows "cycle_rate (instant_env t a b c) s = 0"
  using assms
  by (simp add: cycle_rate_def appended_def retained_filter_us instant_env_def rate_value_def
      timedelta_seconds_def REQUEST_LOG_WINDOW_def)

lemma instant_rate_after_one:
  assumes "REQUEST_LOG s = [Entry t1]" and "timedelta_seconds COOLDOWN_PERIOD \<le> t2 - t1"
  shows "cycle_rate (instant_env t2 a b c) s \<le> 3"
proof (cases "t2 - t1 \<le> timedelta_seconds REQUEST_LOG_WINDOW")
  case True
  with assms(1)
  have r: "retained (now_rate (instant_env t2 a b c)) (appended (instant_env t2 a b c) s) =
      [Entry t1, Entry t2]"
    by (simp add: appended_def retained_filter_us instant_env_def timedelta_seconds_def
        REQUEST_LOG_WINDOW_def)
  from assms(2) have "10000000 \<le> t2 - t1"
    by (simp add: timedelta_seconds_def COOLDOWN_PERIOD_def)
  from total_seconds_mono [OF this] have ten: "10 \<le> total_seconds (t2 - t1)"
    by (simp add: total_seconds_def to_double_exact)
  then have "2 / total_seconds (t2 - t1) \<le> 3"
    by (simp add: pos_divide_le_eq)
  from to_double_mono [OF this] have "to_double (2 / total_seconds (t2 - t1)) \<le> 3"
    by (simp add: to_double_exact)
  with ten show ?thesis
    by (simp add: cycle_rate_def r rate_value_def span_seconds_def to_double_exact)
next
  case False
  with assms(1)
  have r: "retained (now_rate (instant_env t2 a b c)) (appended (instant_env t2 a b c) s) =
      [Entry t2]"
    by (simp add: appended_def retained_filter_us instant_env_def timedelta_seconds_def
        REQUEST_LOG_WINDOW_def)
  show ?thesis
    by (simp add: cycle_rate_def r rate_value_def)
qed

lemma low_rate_targets_small: "r \<le> 3 \<Longrightarrow> choose_target_group r = ''small''"
  by (simp add: choose_target_group_def THRESHOLD_T1_def HYSTERESIS_def)

lemma loop_starts_small:
  assumes "\<forall>t0. LAST_SCALING_TIME s = Some t0 \<longrightarrow> timedelta_seconds COOLDOWN_PERIOD \<le> t - t0"
  shows "handle_request_loop ''small'' INSTANCE_GROUPS
           (tier_env (instant_env t ''stopped'' ''stopped'' ''stopped'')) s =
         (Inr (), s\<lparr>LAST_SCALING_TIME := Some t\<rparr>,
          [DescribeInstances [''i-0c57481c98da9fe7e''], StartInstances [''i-0c57481c98da9fe7e''],
           LogStarted [''i-0c57481c98da9fe7e''],
           DescribeInstances [''i-0adefdc2a894f3c7b''],
           LogAlready [''i-0adefdc2a894f3c7b''] ''stopped'',
           DescribeInstances [''i-0b8e3663a1e20b934''],
           LogAlready [''i-0b8e3663a1e20b934''] ''stopped''])"
  using assms
  by (cases "LAST_SCALING_TIME s")
    (simp_all add: INSTANCE_GROUPS_def instant_env_def manage_instances_def cooldown_active_def)

lemma loop_stops_medium:
  assumes "\<forall>t0. LAST_SCALING_TIME s = Some t0 \<longrightarrow> timedelta_seconds COOLDOWN_PERIOD \<le> t - t0"
  shows "handle_request_loop ''small'' INSTANCE_GROUPS
           (tier_env (instant_env t ''running'' ''running'' ''stopped'')) s =
         (Inr (), s\<lparr>LAST_SCALING_TIME := Some t\<rparr>,
          [DescribeInstances [''i-0c57481c98da9fe7e''],
           LogAlready [''i-0c57481c98da9fe7e''] ''running'',
           DescribeInstances [''i-0adefdc2a894f3c7b''], StopInstances [''i-0adefdc2a894f3c7b''],
           LogStopped [''i-0adefdc2a894f3c7b''],
           DescribeInstances [''i-0b8e3663a1e20b934''],
           LogAlready [''i-0b8e3663a1e20b934''] ''stopped''])"
  using assms
  by (cases "LAST_SCALING_TIME s")
    (simp_all add: INSTANCE_GROUPS_def instant_env_def manage_instances_def cooldown_active_def)

lemma loop_stops_large:
  assumes "\<forall>t0. LAST_SCALING_TIME s = Some t0 \<longrightarrow> timedelta_seconds COOLDOWN_PERIOD \<le> t - t0"
  shows "handle_request_loop ''small'' INSTANCE_GROUPS
           (tier_env (instant_env t ''running'' ''stopped'' ''running'')) s =
         (Inr (), s\<lparr>LAST_SCALING_TIME := Some t\<rparr>,
          [DescribeInstances [''i-0c57481c98da9fe7e''],
           LogAlready [''i-0c57481c98da9fe7e''] ''running'',
           DescribeInstances [''i-0adefdc2a894f3c7b''],
           LogAlready [''i-0adefdc2a894f3c7b''] ''stopped'',
           DescribeInstances [''i-0b8e3663a1e20b934''], StopInstances [''i-0b8e3663a1e20b934''],
           LogStopped [''i-0b8e3663a1e20b934'']])"
  using assms
  by (cases "LAST_SCALING_TIME s")
    (simp_all add: INSTANCE_GROUPS_def instant_env_def manage_instances_def cooldown_active_def)

lemma two_instant_cycles:
  assumes gap: "timedelta_seconds COOLDOWN_PERIOD \<le> t2 - t1"
    and loop: "\<And>t s.
      \<forall>t0. LAST_SCALING_TIME s = Some t0 \<longrightarrow> timedelta_seconds COOLDOWN_PERIOD \<le> t - t0 \<Longrightarrow>
      handle_request_loop ''small'' INSTANCE_GROUPS (tier_env (instant_env t a b c)) s =
        (Inr (), s\<lparr>LAST_SCALING_TIME := Some t\<rparr>, tr)"
  shows "cycle_trace (instant_env t1 a b c) empty_state = tr \<and>
         cycle_trace (instant_env t2 a b c) (cycle_state (instant_env t1 a b c) empty_state) = tr"
proof -
  let ?e1 = "instant_env t1 a b c" and ?e2 = "instant_env t2 a b c"
  let ?s1 = "cycle_state ?e1 empty_state"
  have r1: "choose_target_group (cycle_rate ?e1 empty_state) = ''small''"
    by (simp add: instant_rate_first empty_state_def low_rate_targets_small)
  have l1: "cycle_loop ?e1 empty_state =
      (Inr (), ((appended ?e1 empty_state)\<lparr>REQUEST_LOG :=
         retained (now_rate ?e1) (appended ?e1 empty_state)\<rparr>)\<lparr>LAST_SCALING_TIME := Some t1\<rparr>, tr)"
    unfolding cycle_loop_def r1
    by (rule loop) (simp add: appended_def empty_state_def)
  have t1: "cycle_trace ?e1 empty_state = tr"
    by (simp add: cycle_trace_def handle_request_eq l1)
  have last1: "LAST_SCALING_TIME ?s1 = Some t1"
    by (simp add: cycle_state_eq l1)
  have log1: "REQUEST_LOG ?s1 = [Entry t1]"
    by (simp add: cycle_state_log appended_def empty_state_def retained_filter_us instant_env_def
        timedelta_seconds_def REQUEST_LOG_WINDOW_def)
  have r2: "choose_target_group (cycle_rate ?e2 ?s1) = ''small''"
    using instant_rate_after_one [OF log1 gap] by (rule low_rate_targets_small)
  have "\<exists>s'. cycle_loop ?e2 ?s1 = (Inr (), s', tr)"
    unfolding cycle_loop_def r2
    by (rule exI, rule loop) (simp add: appended_def last1 gap)
  then have t2: "cycle_trace ?e2 ?s1 = tr"
    by (auto simp add: cycle_trace_def handle_request_eq)
  from t1 t2 show ?thesis by simp
qed

lemma both_cycles_may_transition:
  assumes "timedelta_seconds COOLDOWN_PERIOD \<le> t2 - t1"
  shows "\<forall>tier\<in>set INSTANCE_GROUPS. \<exists>a b c.
      transitions (ids (snd tier)) (cycle_trace (instant_env t1 a b c) empty_state) = 1 \<and>
      transitions (ids (snd tier))
        (cycle_trace (instant_env t2 a b c) (cycle_state (instant_env t1 a b c) empty_state)) = 1"
proof -
  have small: "\<exists>a b c.
      transitions [''i-0c57481c98da9fe7e''] (cycle_trace (instant_env t1 a b c) empty_state) = 1 \<and>
      transitions [''i-0c57481c98da9fe7e'']
        (cycle_trace (instant_env t2 a b c) (cycle_state (instant_env t1 a b c) empty_state)) = 1"
    using two_instant_cycles [OF assms loop_starts_small]
    by (intro exI [of _ "''stopped''"]) simp
  have medium: "\<exists>a b c.
      transitions [''i-0adefdc2a894f3c7b''] (cycle_trace (instant_env t1 a b c) empty_state) = 1 \<and>
      transitions [''i-0adefdc2a894f3c7b'']
        (cycle_trace (instant_env t2 a b c) (cycle_state (instant_env t1 a b c) empty_state)) = 1"
    using two_instant_cycles [OF assms loop_stops_medium]
    by (intro exI [of _ "''running''"] exI [of _ "''stopped''"]) simp
  have large: "\<exists>a b c.
      transitions [''i-0b8e3663a1e20b934''] (cycle_trace (instant_env t1 a b c) empty_state) = 1 \<and>
      transitions [''i-0b8e3663a1e20b934'']
        (cycle_trace (instant_env t2 a b c) (cycle_state (instant_env t1 a b c) empty_state)) = 1"
    using two_instant_cycles [OF assms loop_stops_large]
    by (intro exI [of _ "''running''"] exI [of _ "''stopped''"] exI [of _ "''running''"]) simp
  from small medium large show ?thesis
    by (simp add: INSTANCE_GROUPS_def)
qed

lemma late_second:
  "handle_request late_second_env after_first_cycle =
    (Success ''small'' (to_double (22 / 100)),
     \<lparr>REQUEST_LOG = [Entry 0, Entry 9000000], LAST_SCALING_TIME = Some 10000000\<rparr>,
     [DescribeInstances [''i-0c57481c98da9fe7e''], StartInstances [''i-0c57481c98da9fe7e''],
      LogStarted [''i-0c57481c98da9fe7e''],
      DescribeInstances [''i-0adefdc2a894f3c7b''], LogAlready [''i-0adefdc2a894f3c7b''] ''stopped'',
      DescribeInstances [''i-0b8e3663a1e20b934''], LogAlready [''i-0b8e3663a1e20b934''] ''stopped''])"
  by code_simp

text \<open>
  Claim C3, as amended. The cooldown runs from the clock reading stored after a performed
  operation to the clock reading taken by a later cooldown test; it is not measured between
  the arrivals of two requests. If every cooldown test of the second cycle reads less than
  \<open>COOLDOWN_PERIOD\<close> seconds after every reading that the first cycle stores, then for every
  tier at most one start or stop of its instances is performed across both cycles, whatever
  the fleet controller answers and whatever the state before; this holds in particular for
  two cycles that each take all their readings at one instant, the second instant less than
  the cooldown after the first. If the second instant is the cooldown or more after the first,
  both cycles may perform a transition for the same tier: for every tier and every such pair
  of instants there is a run, from the initial state, in which both do.
\<close>

theorem cooldown_between_cycles:
  "(tier \<in> set INSTANCE_GROUPS \<and> cycles_within_cooldown env1 env2 \<longrightarrow>
      transitions (ids (snd tier)) (cycle_trace env1 s) +
      transitions (ids (snd tier)) (cycle_trace env2 (cycle_state env1 s)) \<le> 1) \<and>
   (tier \<in> set INSTANCE_GROUPS \<and> t2 - t1 < timedelta_seconds COOLDOWN_PERIOD \<longrightarrow>
      transitions (ids (snd tier)) (cycle_trace (instant_env t1 a b c) s) +
      transitions (ids (snd tier))
        (cycle_trace (instant_env t2 a' b' c') (cycle_state (instant_env t1 a b c) s)) \<le> 1) \<and>
   (timedelta_seconds COOLDOWN_PERIOD \<le> t2 - t1 \<longrightarrow>
      (\<forall>tier\<in>set INSTANCE_GROUPS. \<exists>a b c.
         transitions (ids (snd tier)) (cycle_trace (instant_env t1 a b c) empty_state) = 1 \<and>
         transitions (ids (snd tier))
           (cycle_trace (instant_env t2 a b c)
              (cycle_state (instant_env t1 a b c) empty_state)) = 1))"
proof (intro conjI impI)
  assume "tier \<in> set INSTANCE_GROUPS \<and> cycles_within_cooldown env1 env2"
  then have "\<forall>g\<in>set group_names. \<forall>g'\<in>set group_names.
      now_check (tier_env env2 g') - now_after (tier_env env1 g)
        < timedelta_seconds COOLDOWN_PERIOD"
    by (simp add: cycles_within_cooldown_def)
  then show "transitions (ids (snd tier)) (cycle_trace env1 s) +
      transitions (ids (snd tier)) (cycle_trace env2 (cycle_state env1 s)) \<le> 1"
    by (rule two_cycles_one_transition)
next
  assume "tier \<in> set INSTANCE_GROUPS \<and> t2 - t1 < timedelta_seconds COOLDOWN_PERIOD"
  then have "cycles_within_cooldown (instant_env t1 a b c) (instant_env t2 a' b' c')"
    by (simp add: instant_within timedelta_seconds_def COOLDOWN_PERIOD_def)
  then have "\<forall>g\<in>set group_names. \<forall>g'\<in>set group_names.
      now_check (tier_env (instant_env t2 a' b' c') g') -
      now_after (tier_env (instant_env t1 a b c) g)
        < timedelta_seconds COOLDOWN_PERIOD"
    by (simp add: cycles_within_cooldown_def)
  then show "transitions (ids (snd tier)) (cycle_trace (instant_env t1 a b c) s) +
      transitions (ids (snd tier))
        (cycle_trace (instant_env t2 a' b' c') (cycle_state (instant_env t1 a b c) s)) \<le> 1"
    by (rule two_cycles_one_transition)
next
  assume "timedelta_seconds COOLDOWN_PERIOD \<le> t2 - t1"
  then show "\<forall>tier\<in>set INSTANCE_GROUPS. \<exists>a b c.
         transitions (ids (snd tier)) (cycle_trace (instant_env t1 a b c) empty_state) = 1 \<and>
         transitions (ids (snd tier))
           (cycle_trace (instant_env t2 a b c)
              (cycle_state (instant_env t1 a b c) empty_state)) = 1"
    by (rule both_cycles_may_transition)
qed

text \<open>
  Claim C3 as stated fails when the second cycle is slow: a request at 0 s starts \<open>small\<close>
  and stores the reading 0 s; a second request arrives 9 s later, less than the cooldown, but
  its describe call returns at 10 s and still finds \<open>small\<close> stopped; the cooldown test
  \<open>10 s - 0 s < 10 s\<close> is false and \<open>small\<close> is started a second time.
\<close>

theorem late_cooldown_test_starts_twice:
  "now_append late_second_env - now_append (instant_env 0 ''stopped'' ''stopped'' ''stopped'')
     < timedelta_seconds COOLDOWN_PERIOD \<and>
   transitions [''i-0c57481c98da9fe7e'']
     (cycle_trace (instant_env 0 ''stopped'' ''stopped'' ''stopped'') empty_state) +
   transitions [''i-0c57481c98da9fe7e'']
     (cycle_trace late_second_env
        (cycle_state (instant_env 0 ''stopped'' ''stopped'' ''stopped'') empty_state)) = 2 \<and>
   \<not> transitions [''i-0c57481c98da9fe7e'']
     (cycle_trace (instant_env 0 ''stopped'' ''stopped'' ''stopped'') empty_state) +
   transitions [''i-0c57481c98da9fe7e'']
     (cycle_trace late_second_env
        (cycle_state (instant_env 0 ''stopped'' ''stopped'' ''stopped'') empty_state)) \<le> 1"
proof -
  have "now_append late_second_env - now_append (instant_env 0 ''stopped'' ''stopped'' ''stopped'')
     < timedelta_seconds COOLDOWN_PERIOD"
    by (simp add: late_second_env_def instant_env_def timedelta_seconds_def COOLDOWN_PERIOD_def)
  moreover have "transitions [''i-0c57481c98da9fe7e'']
     (cycle_trace (instant_env 0 ''stopped'' ''stopped'' ''stopped'') empty_state) +
   transitions [''i-0c57481c98da9fe7e'']
     (cycle_trace late_second_env
        (cycle_state (instant_env 0 ''stopped'' ''stopped'' ''stopped'') empty_state)) = 2"
    using cycle_projections [OF small_first] cycle_projections [OF late_second] by simp
  ultimately show ?thesis by simp
qed

lemma small_second_early:
  "handle_request (instant_env 5000000 ''stopped'' ''stopped'' ''stopped'') after_first_cycle =
    (Success ''small'' (to_double (2 / 5)),
     \<lparr>REQUEST_LOG = [Entry 0, Entry 5000000], LAST_SCALING_TIME = Some 0\<rparr>,
     [DescribeInstances [''i-0c57481c98da9fe7e''], LogCooldown,
      DescribeInstances [''i-0adefdc2a894f3c7b''], LogAlready [''i-0adefdc2a894f3c7b''] ''stopped'',
      DescribeInstances [''i-0b8e3663a1e20b934''], LogAlready [''i-0b8e3663a1e20b934''] ''stopped''])"
  by code_simp

theorem cooldown_between_cycles_witness:
  "hd INSTANCE_GROUPS \<in> set INSTANCE_GROUPS \<and>
   ids (snd (hd INSTANCE_GROUPS)) = [''i-0c57481c98da9fe7e''] \<and>
   cycles_within_cooldown (instant_env 0 ''stopped'' ''stopped'' ''stopped'')
     (instant_env 5000000 ''stopped'' ''stopped'' ''stopped'') \<and>
   (5000000::int) - 0 < timedelta_seconds COOLDOWN_PERIOD \<and>
   transitions [''i-0c57481c98da9fe7e'']
     (cycle_trace (instant_env 0 ''stopped'' ''stopped'' ''stopped'') empty_state) = 1 \<and>
   transitions [''i-0c57481c98da9fe7e'']
     (cycle_trace (instant_env 5000000 ''stopped'' ''stopped'' ''stopped'')
        (cycle_state (instant_env 0 ''stopped'' ''stopped'' ''stopped'') empty_state)) = 0 \<and>
   transitions (ids (snd (hd INSTANCE_GROUPS)))
     (cycle_trace (instant_env 0 ''stopped'' ''stopped'' ''stopped'') empty_state) +
   transitions (ids (snd (hd INSTANCE_GROUPS)))
     (cycle_trace (instant_env 5000000 ''stopped'' ''stopped'' ''stopped'')
        (cycle_state (instant_env 0 ''stopped'' ''stopped'' ''stopped'') empty_state)) \<le> 1 \<and>
   timedelta_seconds COOLDOWN_PERIOD \<le> (10000000::int) - 0 \<and>
   (\<exists>a b c.
      transitions (ids (snd (hd INSTANCE_GROUPS)))
        (cycle_trace (instant_env 0 a b c) empty_state) = 1 \<and>
      transitions (ids (snd (hd INSTANCE_GROUPS)))
        (cycle_trace (instant_env 10000000 a b c)
           (cycle_state (instant_env 0 a b c) empty_state)) = 1)"
proof -
  let ?e1 = "instant_env 0 ''stopped'' ''stopped'' ''stopped''"
  let ?e2 = "instant_env 5000000 ''stopped'' ''stopped'' ''stopped''"
  note near = cooldown_between_cycles [where tier = "hd INSTANCE_GROUPS" and ?env1.0 = ?e1
      and ?env2.0 = ?e2 and s = empty_state and ?t1.0 = 0 and ?t2.0 = 5000000
      and a = "''stopped''" and b = "''stopped''" and c = "''stopped''"
      and a' = "''stopped''" and b' = "''stopped''" and c' = "''stopped''"]
  note far = cooldown_between_cycles [where tier = "hd INSTANCE_GROUPS" and ?env1.0 = ?e1
      and ?env2.0 = ?e2 and s = empty_state and ?t1.0 = 0 and ?t2.0 = 10000000
      and a = "''stopped''" and b = "''stopped''" and c = "''stopped''"
      and a' = "''stopped''" and b' = "''stopped''" and c' = "''stopped''"]
  have m: "hd INSTANCE_GROUPS \<in> set INSTANCE_GROUPS"
    by (simp add: INSTANCE_GROUPS_def)
  have i: "ids (snd (hd INSTANCE_GROUPS)) = [''i-0c57481c98da9fe7e'']"
    by (simp add: INSTANCE_GROUPS_def)
  have w: "cycles_within_cooldown ?e1 ?e2"
    by (simp add: instant_within)
  have n: "(5000000::int) - 0 < timedelta_seconds COOLDOWN_PERIOD"
    by (simp add: timedelta_seconds_def COOLDOWN_PERIOD_def)
  have f: "timedelta_seconds COOLDOWN_PERIOD \<le> (10000000::int) - 0"
    by (simp add: timedelta_seconds_def COOLDOWN_PERIOD_def)
  from near m w
  have sum: "transitions (ids (snd (hd INSTANCE_GROUPS))) (cycle_trace ?e1 empty_state) +
      transitions (ids (snd (hd INSTANCE_GROUPS)))
        (cycle_trace ?e2 (cycle_state ?e1 empty_state)) \<le> 1"
    by blast
  from near m n
  have "transitions (ids (snd (hd INSTANCE_GROUPS))) (cycle_trace ?e1 empty_state) +
      transitions (ids (snd (hd INSTANCE_GROUPS)))
        (cycle_trace ?e2 (cycle_state ?e1 empty_state)) \<le> 1"
    by blast
  from far f m
  have both: "\<exists>a b c.
      transitions (ids (snd (hd INSTANCE_GROUPS)))
        (cycle_trace (instant_env 0 a b c) empty_state) = 1 \<and>
      transitions (ids (snd (hd INSTANCE_GROUPS)))
        (cycle_trace (instant_env 10000000 a b c)
           (cycle_state (instant_env 0 a b c) empty_state)) = 1"
    by blast
  have first: "transitions [''i-0c57481c98da9fe7e''] (cycle_trace ?e1 empty_state) = 1"
    using cycle_projections [OF small_first] by simp
  have second: "transitions [''i-0c57481c98da9fe7e'']
      (cycle_trace ?e2 (cycle_state ?e1 empty_state)) = 0"
    using cycle_projections [OF small_first] cycle_projections [OF small_second_early] by simp
  from m i w n sum first second f both show ?thesis by blast
qed

text \<open>
  Claim C6, as amended. \<open>LAST_SCALING_TIME\<close> is one timestamp for all tiers: a performed
  start or stop stores the clock reading taken after it, and every reconciliation, of any
  tier, whose cooldown test reads a clock value less than \<open>COOLDOWN_PERIOD\<close> seconds after
  the stored one issues no start or stop and leaves the state unchanged. A decision cycle
  whose cooldown tests all read less than \<open>COOLDOWN_PERIOD\<close> seconds after the readings it
  stores therefore issues at most one start or stop call; such a cycle can stop the previously
  active tier and skip the start of the target tier, or start the target tier and skip the
  stop of another running tier.
\<close>

theorem cooldown_is_shared_by_all_tiers:
  "(LAST_SCALING_TIME s = Some t \<and> now_check env - t < timedelta_seconds COOLDOWN_PERIOD \<longrightarrow>
      fst (snd (manage_instances operation instance_ids env s)) = s \<and>
      issued_calls (snd (snd (manage_instances operation instance_ids env s))) = []) \<and>
   (0 < transitions x (snd (snd (manage_instances operation instance_ids env s))) \<longrightarrow>
      LAST_SCALING_TIME (fst (snd (manage_instances operation instance_ids env s))) =
        Some (now_after env)) \<and>
   (cycles_within_cooldown renv renv \<longrightarrow> length (issued_calls (cycle_trace renv s)) \<le> 1) \<and>
   (\<exists>renv s r. cycles_within_cooldown renv renv \<and>
      fst (handle_request renv s) = Success ''large'' r \<and>
      describe_result (tier_env renv ''large'') = Inr ''stopped'' \<and>
      issued_calls (cycle_trace renv s) = [StopInstances [''i-0c57481c98da9fe7e'']]) \<and>
   (\<exists>renv s r. cycles_within_cooldown renv renv \<and>
      fst (handle_request renv s) = Success ''small'' r \<and>
      describe_result (tier_env renv ''medium'') = Inr ''running'' \<and>
      issued_calls (cycle_trace renv s) = [StartInstances [''i-0c57481c98da9fe7e'']])"
proof -
  have a: "fst (snd (manage_instances operation instance_ids env s)) = s \<and>
      issued_calls (snd (snd (manage_instances operation instance_ids env s))) = []"
    if "LAST_SCALING_TIME s = Some t \<and> now_check env - t < timedelta_seconds COOLDOWN_PERIOD"
  proof -
    from that have "cooldown_active env s" by (simp add: cooldown_active_def)
    from manage_instances_frozen [OF this] show ?thesis by blast
  qed
  have b: "LAST_SCALING_TIME (fst (snd (manage_instances operation instance_ids env s))) =
        Some (now_after env)"
    if "0 < transitions x (snd (snd (manage_instances operation instance_ids env s)))"
    using that by (rule manage_instances_performed)
  have c: "length (issued_calls (cycle_trace renv s)) \<le> 1" if "cycles_within_cooldown renv renv"
    using that by (rule cycle_one_call)
  have d: "\<exists>renv s r. cycles_within_cooldown renv renv \<and>
      fst (handle_request renv s) = Success ''large'' r \<and>
      describe_result (tier_env renv ''large'') = Inr ''stopped'' \<and>
      issued_calls (cycle_trace renv s) = [StopInstances [''i-0c57481c98da9fe7e'']]"
    using cycle_projections [OF stop_without_start] stop_without_start
    by (intro exI [of _ "instant_env 100000 ''running'' ''stopped'' ''stopped''"]
        exI [of _ one_request_state] exI [of _ 20])
      (simp add: instant_within, simp add: instant_env_def)
  have e: "\<exists>renv s r. cycles_within_cooldown renv renv \<and>
      fst (handle_request renv s) = Success ''small'' r \<and>
      describe_result (tier_env renv ''medium'') = Inr ''running'' \<and>
      issued_calls (cycle_trace renv s) = [StartInstances [''i-0c57481c98da9fe7e'']]"
    using cycle_projections [OF start_without_stop] start_without_stop
    by (intro exI [of _ "instant_env 0 ''stopped'' ''running'' ''stopped''"]
        exI [of _ empty_state] exI [of _ 0])
      (simp add: instant_within, simp add: instant_env_def)
  from a b c d e show ?thesis by blast
qed

text \<open>
  Claim C6 as stated (a single decision cycle issues at most one start or stop call) fails
  for a cycle that lasts as long as the cooldown: from the empty state, \<open>small\<close> is observed
  stopped and started at time 0; the describe call for \<open>medium\<close> returns at 10 s and finds it
  running, the cooldown test \<open>10 s - 0 s < 10 s\<close> is false, and \<open>medium\<close> is stopped in
  the same cycle.
\<close>

theorem slow_cycle_issues_two_calls:
  "issued_calls (cycle_trace slow_cycle_env empty_state) =
     [StartInstances [''i-0c57481c98da9fe7e''], StopInstances [''i-0adefdc2a894f3c7b'']] \<and>
   \<not> length (issued_calls (cycle_trace slow_cycle_env empty_state)) \<le> 1"
  using cycle_projections [OF slow_cycle] by simp

theorem cooldown_is_shared_by_all_tiers_witness:
  "LAST_SCALING_TIME after_first_cycle = Some 0 \<and>
   now_check (observed_env ''stopped'') - 0 < timedelta_seconds COOLDOWN_PERIOD \<and>
   manage_instances ''start'' [''i-0b8e3663a1e20b934''] (observed_env ''stopped'') after_first_cycle =
     (Inr (), after_first_cycle, [DescribeInstances [''i-0b8e3663a1e20b934''], LogCooldown]) \<and>
   0 < transitions [''i-0c57481c98da9fe7e'']
         (snd (snd (manage_instances ''start'' [''i-0c57481c98da9fe7e''] (observed_env ''stopped'')
            empty_state))) \<and>
   LAST_SCALING_TIME
     (fst (snd (manage_instances ''start'' [''i-0c57481c98da9fe7e''] (observed_env ''stopped'')
        empty_state))) = Some 0 \<and>
   cycles_within_cooldown (instant_env 0 ''stopped'' ''running'' ''stopped'')
     (instant_env 0 ''stopped'' ''running'' ''stopped'') \<and>
   length (issued_calls (cycle_trace (instant_env 0 ''stopped'' ''running'' ''stopped'')
     empty_state)) \<le> 1"
proof -
  let ?renv = "instant_env 0 ''stopped'' ''running'' ''stopped''"
  note inst = cooldown_is_shared_by_all_tiers [of after_first_cycle 0 "observed_env ''stopped''" "''start''"
      "[''i-0b8e3663a1e20b934'']" "[''i-0c57481c98da9fe7e'']" ?renv]
  note inst2 = cooldown_is_shared_by_all_tiers [of empty_state 0 "observed_env ''stopped''" "''start''"
      "[''i-0c57481c98da9fe7e'']" "[''i-0c57481c98da9fe7e'']" ?renv]
  have l: "LAST_SCALING_TIME after_first_cycle = Some 0"
    by (simp add: after_first_cycle_def)
  have n: "now_check (observed_env ''stopped'') - 0 < timedelta_seconds COOLDOWN_PERIOD"
    by (simp add: observed_env_def timedelta_seconds_def COOLDOWN_PERIOD_def)
  from inst l n
  have "fst (snd (manage_instances ''start'' [''i-0b8e3663a1e20b934''] (observed_env ''stopped'')
      after_first_cycle)) = after_first_cycle \<and>
    issued_calls (snd (snd (manage_instances ''start'' [''i-0b8e3663a1e20b934'']
      (observed_env ''stopped'') after_first_cycle))) = []"
    by blast
  have m: "manage_instances ''start'' [''i-0b8e3663a1e20b934''] (observed_env ''stopped'')
      after_first_cycle =
     (Inr (), after_first_cycle, [DescribeInstances [''i-0b8e3663a1e20b934''], LogCooldown])"
    by (simp add: manage_instances_def observed_env_def after_first_cycle_def cooldown_active_def
        timedelta_seconds_def COOLDOWN_PERIOD_def)
  have p: "0 < transitions [''i-0c57481c98da9fe7e'']
         (snd (snd (manage_instances ''start'' [''i-0c57481c98da9fe7e''] (observed_env ''stopped'')
            empty_state)))"
    by (simp add: manage_instances_def observed_env_def empty_state_def cooldown_active_def)
  from inst2 p have q: "LAST_SCALING_TIME
     (fst (snd (manage_instances ''start'' [''i-0c57481c98da9fe7e''] (observed_env ''stopped'')
        empty_state))) = Some (now_after (observed_env ''stopped''))"
    by blast
  have w: "cycles_within_cooldown ?renv ?renv"
    by (simp add: instant_within)
  from inst w have o: "length (issued_calls (cycle_trace ?renv after_first_cycle)) \<le> 1"
    by blast
  from inst2 w have o2: "length (issued_calls (cycle_trace ?renv empty_state)) \<le> 1"
    by blast
  from l n m p q w o2 show ?thesis
    by (simp add: observed_env_def)
qed

subsection \<open>A burst of three events\<close>

lemma burst_logs:
  assumes "REQUEST_LOG s0 = []" and "burst_in_window e1 e2 e3"
  shows "retained (now_rate e1) (appended e1 s0) = [Entry (now_append e1)]"
    and "retained (now_rate e3) (appended e3 (cycle_state e2 (cycle_state e1 s0))) =
           [Entry (now_append e1), Entry (now_append e2), Entry (now_append e3)]"
proof -
  show l1: "retained (now_rate e1) (appended e1 s0) = [Entry (now_append e1)]"
    using assms by (subst retained_all) (simp_all add: appended_log burst_in_window_def)
  have l2: "retained (now_rate e2) (appended e2 (cycle_state e1 s0)) =
      [Entry (now_append e1), Entry (now_append e2)]"
    using assms l1
    by (subst retained_all) (simp_all add: appended_log cycle_state_log burst_in_window_def)
  show "retained (now_rate e3) (appended e3 (cycle_state e2 (cycle_state e1 s0))) =
      [Entry (now_append e1), Entry (now_append e2), Entry (now_append e3)]"
    using assms l2
    by (subst retained_all) (simp_all add: appended_log cycle_state_log burst_in_window_def)
qed

lemma burst_rates:
  assumes "REQUEST_LOG s0 = []" and "burst_in_window e1 e2 e3"
  shows "cycle_rate e1 s0 = 0"
    and "cycle_rate e3 (cycle_state e2 (cycle_state e1 s0)) = burst_rate e1 e3"
proof -
  show "cycle_rate e1 s0 = 0"
    by (simp add: cycle_rate_def burst_logs(1) [OF assms] rate_value_def)
  show "cycle_rate e3 (cycle_state e2 (cycle_state e1 s0)) = burst_rate e1 e3"
    by (simp add: cycle_rate_def burst_logs(2) [OF assms] rate_value_def span_seconds_def
        burst_rate_def total_seconds_pos_iff to_double_exact)
qed

lemma cycle_rate_computed:
  "fst (calculate_arrival_rate (now_rate env) (appended env s)) = Inr (cycle_rate env s)"
  by (simp add: calculate_arrival_rate_eq cycle_rate_def)

lemma manage_instances_succeeds:
  assumes "\<not> isl (describe_result env)" and "\<not> isl (op_result env)"
  shows "\<exists>u. fst (manage_instances operation instance_ids env s) = Inr u"
proof -
  from assms obtain st u where "describe_result env = Inr st" "op_result env = Inr u"
    by (cases "describe_result env"; cases "op_result env") simp_all
  then show ?thesis
    by (simp add: manage_instances_def)
qed

lemma handle_request_loop_succeeds:
  assumes "\<forall>g\<in>set (map fst groups).
      \<not> isl (describe_result (envs g)) \<and> \<not> isl (op_result (envs g))"
  shows "\<exists>u. fst (handle_request_loop target_group groups envs s) = Inr u"
  using assms
proof (induction groups arbitrary: s)
  case Nil
  then show ?case by simp
next
  case (Cons a rest)
  obtain grp info where a: "a = (grp, info)" by (cases a)
  let ?op = "if grp = target_group then ''start'' else ''stop''"
  obtain r s' tr where m: "manage_instances ?op (ids info) (envs grp) s = (r, s', tr)"
    by (cases "manage_instances ?op (ids info) (envs grp) s")
  note step = handle_request_loop_step [where envs = envs and grp = grp and rest = rest, OF m]
  from Cons.prems a have "\<not> isl (describe_result (envs grp))" "\<not> isl (op_result (envs grp))"
    by simp_all
  from manage_instances_succeeds [OF this, of ?op "ids info" s] m
  obtain u where r: "r = Inr u" by auto
  from Cons.IH [of s'] Cons.prems show ?case
    unfolding a step r by simp
qed

lemma handle_request_answers:
  assumes "fleet_answers env"
  shows "fst (handle_request env s) =
           Success (choose_target_group (cycle_rate env s)) (round2 (cycle_rate env s))"
proof -
  from assms have "\<forall>g\<in>set (map fst INSTANCE_GROUPS).
      \<not> isl (describe_result (tier_env env g)) \<and> \<not> isl (op_result (tier_env env g))"
    by (simp add: fleet_answers_def group_names_def)
  from handle_request_loop_succeeds [OF this]
  obtain u where "fst (cycle_loop env s) = Inr u"
    unfolding cycle_loop_def by blast
  then show ?thesis
    by (simp add: handle_request_eq)
qed

lemma round2_zero [simp]: "round2 0 = 0"
  by (simp add: round2_def round_half_even_def to_double_def)

lemma handle_request_success:
  assumes "fst (handle_request env s) = Success tg r"
  shows "tg = choose_target_group (cycle_rate env s) \<and>
         (\<exists>u. fst (cycle_loop env s) = Inr u) \<and>
         cycle_trace env s = snd (snd (cycle_loop env s))"
  using assms by (simp add: handle_request_eq cycle_trace_def split: sum.splits)

lemma manage_instances_describes:
  "DescribeInstances instance_ids \<in> set (snd (snd (manage_instances operation instance_ids env s)))"
proof (cases "describe_result env")
  case (Inl e)
  then show ?thesis by (simp add: manage_instances_def)
next
  case (Inr current_state)
  then show ?thesis by (simp add: manage_instances_def split: sum.splits)
qed

lemma manage_instances_start_call:
  assumes "StartInstances y \<in> set (snd (snd (manage_instances operation instance_ids env s)))"
  shows "operation = ''start'' \<and> y = instance_ids"
proof (cases "describe_result env")
  case (Inl e)
  with assms show ?thesis by (simp add: manage_instances_def)
next
  case (Inr current_state)
  with assms show ?thesis
    by (simp add: manage_instances_def split: sum.splits if_splits)
qed

lemma manage_instances_stop_outcomes:
  assumes "manage_instances ''stop'' instance_ids env s = (Inr u, s', tr)"
  shows "tr = [DescribeInstances instance_ids, LogAlready instance_ids ''stopped''] \<or>
         tr = [DescribeInstances instance_ids, LogCooldown] \<or>
         tr = [DescribeInstances instance_ids, StopInstances instance_ids,
               LogStopped instance_ids]"
proof (cases "describe_result env")
  case (Inl e)
  with assms show ?thesis by (simp add: manage_instances_def)
next
  case (Inr current_state)
  with assms show ?thesis
    by (auto simp add: manage_instances_def split: sum.splits if_splits)
qed

lemma handle_request_loop_start_only_target:
  assumes "StartInstances y \<in> set (snd (snd (handle_request_loop target_group groups envs s)))"
  shows "\<exists>tier\<in>set groups. fst tier = target_group \<and> ids (snd tier) = y"
  using assms
proof (induction groups arbitrary: s)
  case Nil
  then show ?case by simp
next
  case (Cons a rest)
  obtain grp info where a: "a = (grp, info)" by (cases a)
  let ?op = "if grp = target_group then ''start'' else ''stop''"
  obtain r s' tr where m: "manage_instances ?op (ids info) (envs grp) s = (r, s', tr)"
    by (cases "manage_instances ?op (ids info) (envs grp) s")
  note step = handle_request_loop_step [where envs = envs and grp = grp and rest = rest, OF m]
  from Cons.prems
  have "StartInstances y \<in> set tr \<or>
        StartInstances y \<in> set (snd (snd (handle_request_loop target_group rest envs s')))"
    unfolding a step by (cases r) simp_all
  then show ?case
  proof
    assume "StartInstances y \<in> set tr"
    with manage_instances_start_call [of y ?op "ids info" "envs grp" s] m
    have "?op = ''start''" "y = ids info" by simp_all
    then have "grp = target_group" by (simp split: if_splits)
    with \<open>y = ids info\<close> show ?thesis by (simp add: a)
  next
    assume "StartInstances y \<in> set (snd (snd (handle_request_loop target_group rest envs s')))"
    from Cons.IH [OF this] show ?thesis by auto
  qed
qed

lemma handle_request_loop_reconciles:
  assumes "fst (handle_request_loop target_group groups envs s) = Inr u"
    and "tier \<in> set groups" and "fst tier \<noteq> target_group"
  shows "DescribeInstances (ids (snd tier))
           \<in> set (snd (snd (handle_request_loop target_group groups envs s))) \<and>
         (StopInstances (ids (snd tier))
            \<in> set (snd (snd (handle_request_loop target_group groups envs s))) \<or>
          LogAlready (ids (snd tier)) ''stopped''
            \<in> set (snd (snd (handle_request_loop target_group groups envs s))) \<or>
          LogCooldown \<in> set (snd (snd (handle_request_loop target_group groups envs s))))"
  using assms
proof (induction groups arbitrary: s)
  case Nil
  then show ?case by simp
next
  case (Cons a rest)
  obtain grp info where a: "a = (grp, info)" by (cases a)
  let ?op = "if grp = target_group then ''start'' else ''stop''"
  obtain r s' tr where m: "manage_instances ?op (ids info) (envs grp) s = (r, s', tr)"
    by (cases "manage_instances ?op (ids info) (envs grp) s")
  note step = handle_request_loop_step [where envs = envs and grp = grp and rest = rest, OF m]
  from Cons.prems(1) obtain u' where r: "r = Inr u'"
    unfolding a step by (cases r) simp_all
  from Cons.prems(1) r have rest_ok: "fst (handle_request_loop target_group rest envs s') = Inr u"
    unfolding a step by simp
  have tr_all: "snd (snd (handle_request_loop target_group (a # rest) envs s)) =
      tr @ snd (snd (handle_request_loop target_group rest envs s'))"
    unfolding a step using r by simp
  show ?case
  proof (cases "tier = a")
    case True
    with Cons.prems(3) a have stop: "?op = ''stop''" by simp
    from m stop r have "manage_instances ''stop'' (ids info) (envs grp) s = (Inr u', s', tr)"
      by simp
    from manage_instances_stop_outcomes [OF this] True a show ?thesis
      unfolding tr_all by auto
  next
    case False
    with Cons.prems(2) have "tier \<in> set rest" by simp
    from Cons.IH [OF rest_ok this Cons.prems(3)] show ?thesis
      unfolding tr_all by auto
  qed
qed

lemma burst_rate_bounds:
  assumes "0 < now_append e3 - now_append e1" and "now_append e3 - now_append e1 \<le> 1000000"
  shows "3 \<le> burst_rate e1 e3"
    and "choose_target_group (burst_rate e1 e3) = ''small'' \<longleftrightarrow>
           now_append e3 - now_append e1 = 1000000"
proof -
  let ?d = "now_append e3 - now_append e1"
  let ?span = "total_seconds ?d"
  have rate: "burst_rate e1 e3 = to_double (3 / ?span)"
    using assms(1) by (simp add: burst_rate_def)
  have pos: "0 < ?span"
    using assms(1) by (simp add: total_seconds_pos_iff)
  from total_seconds_mono [OF assms(2)] have le1: "?span \<le> 1"
    by (simp add: total_seconds_def to_double_exact)
  with pos have "3 \<le> 3 / ?span"
    by (simp add: pos_le_divide_eq)
  from to_double_mono [OF this] show three: "3 \<le> burst_rate e1 e3"
    unfolding rate by (simp add: to_double_exact)
  have small_iff: "choose_target_group (burst_rate e1 e3) = ''small'' \<longleftrightarrow> burst_rate e1 e3 \<le> 3"
    by (simp add: choose_target_group_def THRESHOLD_T1_def HYSTERESIS_def)
  show "choose_target_group (burst_rate e1 e3) = ''small'' \<longleftrightarrow> ?d = 1000000"
  proof (cases "?d = 1000000")
    case True
    then have "?span = 1" by (simp add: total_seconds_def to_double_exact)
    then have "burst_rate e1 e3 = 3" unfolding rate by (simp add: to_double_exact)
    with True small_iff show ?thesis by simp
  next
    case False
    with assms(2) have "?d \<le> 999999" by simp
    from total_seconds_mono [OF this] to_double_samples(2)
    have "?span \<le> 9999995 / 10000000"
      by (simp add: total_seconds_def)
    with pos have "3000001 / 1000000 * ?span \<le> 3" by simp
    with pos have "3000001 / 1000000 \<le> 3 / ?span"
      by (simp add: pos_le_divide_eq)
    from to_double_mono [OF this] to_double_samples(3) have "3 < burst_rate e1 e3"
      unfolding rate by simp
    with False small_iff show ?thesis by simp
  qed
qed

lemma burst_second:
  "handle_request (instant_env 400000 ''stopped'' ''stopped'' ''stopped'') after_first_cycle =
    (Success ''medium'' 5, after_second_burst,
     [DescribeInstances [''i-0c57481c98da9fe7e''], LogAlready [''i-0c57481c98da9fe7e''] ''stopped'',
      DescribeInstances [''i-0adefdc2a894f3c7b''], LogCooldown,
      DescribeInstances [''i-0b8e3663a1e20b934''], LogAlready [''i-0b8e3663a1e20b934''] ''stopped''])"
  by code_simp

lemma burst_third:
  "handle_request (instant_env 800000 ''stopped'' ''stopped'' ''stopped'') after_second_burst =
    (Success ''medium'' (15 / 4),
     \<lparr>REQUEST_LOG = [Entry 0, Entry 400000, Entry 800000], LAST_SCALING_TIME = Some 0\<rparr>,
     [DescribeInstances [''i-0c57481c98da9fe7e''], LogAlready [''i-0c57481c98da9fe7e''] ''stopped'',
      DescribeInstances [''i-0adefdc2a894f3c7b''], LogCooldown,
      DescribeInstances [''i-0b8e3663a1e20b934''], LogAlready [''i-0b8e3663a1e20b934''] ''stopped''])"
  by code_simp

lemma burst_states:
  "cycle_state (instant_env 0 ''stopped'' ''stopped'' ''stopped'') empty_state = after_first_cycle"
  "cycle_state (instant_env 400000 ''stopped'' ''stopped'' ''stopped'') after_first_cycle =
     after_second_burst"
  using cycle_projections [OF small_first] cycle_projections [OF burst_second] by simp_all

text \<open>
  Three events 20 s apart, each handled as it arrives: the third rate is the float
  \<open>3 / 40.0\<close>, which lies below \<open>0.075\<close>, and the response reports \<open>0.07\<close>.
\<close>

lemma slow_burst_response:
  "fst (handle_request (instant_env 40000000 ''stopped'' ''stopped'' ''stopped'')
     (cycle_state (instant_env 20000000 ''stopped'' ''stopped'' ''stopped'')
       (cycle_state (instant_env 0 ''stopped'' ''stopped'' ''stopped'') empty_state))) =
     Success ''small'' (to_double (7 / 100))"
  by code_simp

text \<open>
  Claim C10, as amended. Starting from an empty request window, let three traffic events be
  handled one after the other, none of them older than the window at any of the three rate
  computations. The rate computed for the first event is 0, and when no fleet-controller call
  of that cycle raises, its response reports target \<open>small\<close> and rate 0. The rate computed
  for the third event is the float quotient \<open>3 / span\<close>, where \<open>span\<close> is the time from the
  first to the third event in seconds, and 0 only when that time is not positive; when no
  fleet-controller call of the third cycle raises, its response reports the target chosen from
  that rate and the rate rounded to two decimals. For a burst within one second and with
  positive span the rate is at least 3, and the target is \<open>small\<close> exactly when the span is
  one full second. When the third cycle succeeds, every non-target tier has been reconciled
  with operation stop: its instances were described, no start call was issued for them, and the
  outcome recorded is a stop call, an already-stopped skip or a cooldown skip.
\<close>

theorem burst_of_three_events:
  assumes "REQUEST_LOG s0 = []" and "burst_in_window e1 e2 e3"
  shows
    "fst (calculate_arrival_rate (now_rate e1) (appended e1 s0)) = Inr 0 \<and>
     (fleet_answers e1 \<longrightarrow> fst (handle_request e1 s0) = Success ''small'' 0) \<and>
     fst (calculate_arrival_rate (now_rate e3) (appended e3 (cycle_state e2 (cycle_state e1 s0))))
       = Inr (burst_rate e1 e3) \<and>
     (fleet_answers e3 \<longrightarrow>
        fst (handle_request e3 (cycle_state e2 (cycle_state e1 s0))) =
          Success (choose_target_group (burst_rate e1 e3)) (round2 (burst_rate e1 e3))) \<and>
     (0 < now_append e3 - now_append e1 \<and> now_append e3 - now_append e1 \<le> 1000000 \<longrightarrow>
        3 \<le> burst_rate e1 e3 \<and>
        (choose_target_group (burst_rate e1 e3) = ''small'' \<longleftrightarrow>
           now_append e3 - now_append e1 = 1000000)) \<and>
     (now_append e3 - now_append e1 \<le> 0 \<longrightarrow>
        burst_rate e1 e3 = 0 \<and> choose_target_group (burst_rate e1 e3) = ''small'') \<and>
     (\<forall>tier\<in>set INSTANCE_GROUPS.
        fst (handle_request e3 (cycle_state e2 (cycle_state e1 s0))) = Success tg r \<and>
        fst tier \<noteq> tg \<longrightarrow>
          DescribeInstances (ids (snd tier))
            \<in> set (cycle_trace e3 (cycle_state e2 (cycle_state e1 s0))) \<and>
          StartInstances (ids (snd tier))
            \<notin> set (cycle_trace e3 (cycle_state e2 (cycle_state e1 s0))) \<and>
          (StopInstances (ids (snd tier))
             \<in> set (cycle_trace e3 (cycle_state e2 (cycle_state e1 s0))) \<or>
           LogAlready (ids (snd tier)) ''stopped''
             \<in> set (cycle_trace e3 (cycle_state e2 (cycle_state e1 s0))) \<or>
           LogCooldown \<in> set (cycle_trace e3 (cycle_state e2 (cycle_state e1 s0)))))"
proof -
  let ?s2 = "cycle_state e2 (cycle_state e1 s0)"
  have rate1: "fst (calculate_arrival_rate (now_rate e1) (appended e1 s0)) = Inr 0"
    by (simp add: cycle_rate_computed burst_rates(1) [OF assms])
  have first: "fst (handle_request e1 s0) = Success ''small'' 0" if "fleet_answers e1"
    using handle_request_answers [OF that, of s0]
    by (simp add: burst_rates(1) [OF assms] choose_target_group_def THRESHOLD_T1_def
        HYSTERESIS_def)
  have rate3: "fst (calculate_arrival_rate (now_rate e3) (appended e3 ?s2)) =
      Inr (burst_rate e1 e3)"
    by (simp add: cycle_rate_computed burst_rates(2) [OF assms])
  have third: "fst (handle_request e3 ?s2) =
        Success (choose_target_group (burst_rate e1 e3)) (round2 (burst_rate e1 e3))"
    if "fleet_answers e3"
    using handle_request_answers [OF that, of ?s2]
    by (simp only: burst_rates(2) [OF assms])
  have within: "3 \<le> burst_rate e1 e3 \<and>
        (choose_target_group (burst_rate e1 e3) = ''small'' \<longleftrightarrow>
           now_append e3 - now_append e1 = 1000000)"
    if "0 < now_append e3 - now_append e1 \<and> now_append e3 - now_append e1 \<le> 1000000"
    using that burst_rate_bounds [where ?e1.0 = e1 and ?e3.0 = e3] by blast
  have same: "burst_rate e1 e3 = 0 \<and> choose_target_group (burst_rate e1 e3) = ''small''"
    if "now_append e3 - now_append e1 \<le> 0"
    using that
    by (simp add: burst_rate_def choose_target_group_def THRESHOLD_T1_def HYSTERESIS_def)
  have others: "DescribeInstances (ids (snd tier)) \<in> set (cycle_trace e3 ?s2) \<and>
          StartInstances (ids (snd tier)) \<notin> set (cycle_trace e3 ?s2) \<and>
          (StopInstances (ids (snd tier)) \<in> set (cycle_trace e3 ?s2) \<or>
           LogAlready (ids (snd tier)) ''stopped'' \<in> set (cycle_trace e3 ?s2) \<or>
           LogCooldown \<in> set (cycle_trace e3 ?s2))"
    if tier: "tier \<in> set INSTANCE_GROUPS"
      and ok: "fst (handle_request e3 ?s2) = Success tg r \<and> fst tier \<noteq> tg"
    for tier
  proof -
    from handle_request_success [of e3 ?s2 tg r] ok
    obtain u where tg: "tg = choose_target_group (cycle_rate e3 ?s2)"
      and u: "fst (cycle_loop e3 ?s2) = Inr u"
      and tr: "cycle_trace e3 ?s2 = snd (snd (cycle_loop e3 ?s2))"
      by blast
    from ok tg have other: "fst tier \<noteq> choose_target_group (cycle_rate e3 ?s2)" by simp
    have rec: "DescribeInstances (ids (snd tier)) \<in> set (cycle_trace e3 ?s2) \<and>
          (StopInstances (ids (snd tier)) \<in> set (cycle_trace e3 ?s2) \<or>
           LogAlready (ids (snd tier)) ''stopped'' \<in> set (cycle_trace e3 ?s2) \<or>
           LogCooldown \<in> set (cycle_trace e3 ?s2))"
      unfolding tr cycle_loop_def
      by (rule handle_request_loop_reconciles [OF u [unfolded cycle_loop_def] tier other])
    have "StartInstances (ids (snd tier)) \<notin> set (cycle_trace e3 ?s2)"
    proof
      assume "StartInstances (ids (snd tier)) \<in> set (cycle_trace e3 ?s2)"
      then obtain tier' where t': "tier' \<in> set INSTANCE_GROUPS"
        "fst tier' = choose_target_group (cycle_rate e3 ?s2)" "ids (snd tier') = ids (snd tier)"
        unfolding tr cycle_loop_def
        by (blast dest: handle_request_loop_start_only_target)
      from distinct_group_ids have "inj_on (\<lambda>g. ids (snd g)) (set INSTANCE_GROUPS)"
        by (simp add: distinct_map)
      with t' tier have "tier' = tier" by (simp add: inj_on_def)
      with t'(2) other show False by simp
    qed
    with rec show ?thesis by blast
  qed
  from rate1 first rate3 third within same others show ?thesis by blast
qed

text \<open>
  Claim C10 as stated (rate 0.0 and target small after a burst of three events within one
  second) fails: for events at 0 s, 0.4 s and 0.8 s, each handled as it arrives with all tiers
  observed stopped, the third response carries rate \<open>3 / 0.8 = 3.75\<close> and target
  \<open>medium\<close>.
\<close>

theorem burst_rate_is_not_zero:
  "REQUEST_LOG empty_state = [] \<and>
   now_append (instant_env 800000 ''stopped'' ''stopped'' ''stopped'') -
     now_append (instant_env 0 ''stopped'' ''stopped'' ''stopped'') \<le> 1000000 \<and>
   fst (handle_request (instant_env 800000 ''stopped'' ''stopped'' ''stopped'')
     (cycle_state (instant_env 400000 ''stopped'' ''stopped'' ''stopped'')
       (cycle_state (instant_env 0 ''stopped'' ''stopped'' ''stopped'') empty_state))) =
     Success ''medium'' (15 / 4) \<and>
   fst (handle_request (instant_env 800000 ''stopped'' ''stopped'' ''stopped'')
     (cycle_state (instant_env 400000 ''stopped'' ''stopped'' ''stopped'')
       (cycle_state (instant_env 0 ''stopped'' ''stopped'' ''stopped'') empty_state))) \<noteq>
     Success ''small'' 0"
  by (simp add: burst_states burst_third) (simp add: empty_state_def instant_env_def)

lemma instant_env_answers: "fleet_answers (instant_env t a b c)"
  by (simp add: fleet_answers_def instant_env_def)

lemma burst_rate_example:
  "burst_rate (instant_env 0 ''stopped'' ''stopped'' ''stopped'')
     (instant_env 800000 ''stopped'' ''stopped'' ''stopped'') = 15 / 4"
  by code_simp

theorem burst_of_three_events_witness:
  "REQUEST_LOG empty_state = [] \<and>
   burst_in_window (instant_env 0 ''stopped'' ''stopped'' ''stopped'')
     (instant_env 400000 ''stopped'' ''stopped'' ''stopped'')
     (instant_env 800000 ''stopped'' ''stopped'' ''stopped'') \<and>
   fleet_answers (instant_env 0 ''stopped'' ''stopped'' ''stopped'') \<and>
   fst (handle_request (instant_env 0 ''stopped'' ''stopped'' ''stopped'') empty_state) =
     Success ''small'' 0 \<and>
   fleet_answers (instant_env 800000 ''stopped'' ''stopped'' ''stopped'') \<and>
   burst_rate (instant_env 0 ''stopped'' ''stopped'' ''stopped'')
     (instant_env 800000 ''stopped'' ''stopped'' ''stopped'') = 15 / 4 \<and>
   3 \<le> burst_rate (instant_env 0 ''stopped'' ''stopped'' ''stopped'')
     (instant_env 800000 ''stopped'' ''stopped'' ''stopped'') \<and>
   fst (handle_request (instant_env 800000 ''stopped'' ''stopped'' ''stopped'')
     (cycle_state (instant_env 400000 ''stopped'' ''stopped'' ''stopped'')
       (cycle_state (instant_env 0 ''stopped'' ''stopped'' ''stopped'') empty_state))) =
     Success (choose_target_group (15 / 4)) (round2 (15 / 4)) \<and>
   hd INSTANCE_GROUPS \<in> set INSTANCE_GROUPS \<and> fst (hd INSTANCE_GROUPS) \<noteq> ''medium'' \<and>
   DescribeInstances (ids (snd (hd INSTANCE_GROUPS)))
     \<in> set (cycle_trace (instant_env 800000 ''stopped'' ''stopped'' ''stopped'')
         (cycle_state (instant_env 400000 ''stopped'' ''stopped'' ''stopped'')
           (cycle_state (instant_env 0 ''stopped'' ''stopped'' ''stopped'') empty_state))) \<and>
   StartInstances (ids (snd (hd INSTANCE_GROUPS)))
     \<notin> set (cycle_trace (instant_env 800000 ''stopped'' ''stopped'' ''stopped'')
         (cycle_state (instant_env 400000 ''stopped'' ''stopped'' ''stopped'')
           (cycle_state (instant_env 0 ''stopped'' ''stopped'' ''stopped'') empty_state)))"
proof -
  let ?e1 = "instant_env 0 ''stopped'' ''stopped'' ''stopped''"
  let ?e2 = "instant_env 400000 ''stopped'' ''stopped'' ''stopped''"
  let ?e3 = "instant_env 800000 ''stopped'' ''stopped'' ''stopped''"
  have e: "REQUEST_LOG empty_state = []"
    by (simp add: empty_state_def)
  have w: "burst_in_window ?e1 ?e2 ?e3"
    by (simp add: burst_in_window_def instant_env_def timedelta_seconds_def
        REQUEST_LOG_WINDOW_def)
  note inst = burst_of_three_events [OF e w, of "''medium''" "15 / 4"]
  have a1: "fleet_answers ?e1" and a3: "fleet_answers ?e3"
    by (rule instant_env_answers)+
  have d: "0 < now_append ?e3 - now_append ?e1 \<and> now_append ?e3 - now_append ?e1 \<le> 1000000"
    by (simp add: instant_env_def)
  from inst d have three: "3 \<le> burst_rate ?e1 ?e3" by blast
  from inst a1 have first: "fst (handle_request ?e1 empty_state) = Success ''small'' 0"
    by blast
  from inst a3 have "fst (handle_request ?e3 (cycle_state ?e2 (cycle_state ?e1 empty_state))) =
      Success (choose_target_group (burst_rate ?e1 ?e3)) (round2 (burst_rate ?e1 ?e3))"
    by blast
  then have resp: "fst (handle_request ?e3 (cycle_state ?e2 (cycle_state ?e1 empty_state))) =
      Success (choose_target_group (15 / 4)) (round2 (15 / 4))"
    by (simp only: burst_rate_example)
  have third: "fst (handle_request ?e3 (cycle_state ?e2 (cycle_state ?e1 empty_state))) =
      Success ''medium'' (15 / 4)"
    by (simp add: burst_states burst_third)
  have m: "hd INSTANCE_GROUPS \<in> set INSTANCE_GROUPS"
    and n: "fst (hd INSTANCE_GROUPS) \<noteq> ''medium''"
    by (simp_all add: INSTANCE_GROUPS_def)
  from inst m third n
  have "DescribeInstances (ids (snd (hd INSTANCE_GROUPS)))
      \<in> set (cycle_trace ?e3 (cycle_state ?e2 (cycle_state ?e1 empty_state))) \<and>
    StartInstances (ids (snd (hd INSTANCE_GROUPS)))
      \<notin> set (cycle_trace ?e3 (cycle_state ?e2 (cycle_state ?e1 empty_state)))"
    by blast
  with e w a1 first a3 burst_rate_example three resp m n show ?thesis by simp
qed

section \<open>Status query\<close>

lemma get_metrics_loop_active:
  "fst (get_metrics_loop groups describe active) =
     active @ filter (\<lambda>g. describe g = Inr ''running'') (map fst groups)"
proof (induction groups arbitrary: active)
  case Nil
  then show ?case by simp
next
  case (Cons a rest)
  obtain grp info where a: "a = (grp, info)" by (cases a)
  show ?case
  proof (cases "describe grp")
    case (Inl e)
    obtain active' tr where "get_metrics_loop rest describe active = (active', tr)"
      by (cases "get_metrics_loop rest describe active")
    with Cons.IH [of active] Inl show ?thesis
      by (simp add: a)
  next
    case (Inr st)
    let ?acc = "if st = ''running'' then active @ [grp] else active"
    obtain active' tr where "get_metrics_loop rest describe ?acc = (active', tr)"
      by (cases "get_metrics_loop rest describe ?acc")
    with Cons.IH [of ?acc] Inr show ?thesis
      by (simp add: a)
  qed
qed

text \<open>
  Claim C9: a status query always returns a report, never an error, whatever the per-tier
  fetches do. The report lists, in the order of \<open>INSTANCE_GROUPS\<close>, exactly the tiers whose
  fetch returned \<open>running\<close>: a tier whose fetch raises is left out, and every other tier
  observed running is still listed.
\<close>

theorem status_query_isolates_failures:
  "\<exists>m s' tr. get_metrics env s = (Inr m, s', tr) \<and>
     active_groups m = filter (\<lambda>g. describe_of env g = Inr ''running'') group_names \<and>
     (\<forall>g e. describe_of env g = Inl e \<longrightarrow> g \<notin> set (active_groups m)) \<and>
     (\<forall>g\<in>set group_names. describe_of env g = Inr ''running'' \<longrightarrow> g \<in> set (active_groups m))"
proof -
  obtain active tr where l: "get_metrics_loop INSTANCE_GROUPS (describe_of env) [] = (active, tr)"
    by (cases "get_metrics_loop INSTANCE_GROUPS (describe_of env) []")
  from get_metrics_loop_active [of INSTANCE_GROUPS "describe_of env" "[]"] l
  have act: "active = filter (\<lambda>g. describe_of env g = Inr ''running'') group_names"
    by (simp add: group_names_def)
  have "get_metrics env s =
      (Inr \<lparr>active_groups = active,
            arrival_rate = round2 (rate_value (retained (now_metrics env) s))\<rparr>,
       s\<lparr>REQUEST_LOG := retained (now_metrics env) s\<rparr>, tr)"
    by (simp add: get_metrics_def l calculate_arrival_rate_eq)
  with act show ?thesis by auto
qed

theorem status_query_isolates_failures_witness:
  "get_metrics partial_outage_env empty_state =
     (Inr \<lparr>active_groups = [''small'', ''large''], arrival_rate = 0\<rparr>, empty_state,
      [DescribeInstances [''i-0c57481c98da9fe7e''],
       DescribeInstances [''i-0adefdc2a894f3c7b''],
       LogStatusFailed ''medium'' (ClientError ''RequestLimitExceeded''),
       DescribeInstances [''i-0b8e3663a1e20b934'']]) \<and>
   describe_of partial_outage_env ''medium'' = Inl (ClientError ''RequestLimitExceeded'') \<and>
   ''medium'' \<notin> set [''small'', ''large''] \<and>
   ''large'' \<in> set group_names \<and> describe_of partial_outage_env ''large'' = Inr ''running''"
proof -
  have a: "get_metrics partial_outage_env empty_state =
     (Inr \<lparr>active_groups = [''small'', ''large''], arrival_rate = 0\<rparr>, empty_state,
      [DescribeInstances [''i-0c57481c98da9fe7e''],
       DescribeInstances [''i-0adefdc2a894f3c7b''],
       LogStatusFailed ''medium'' (ClientError ''RequestLimitExceeded''),
       DescribeInstances [''i-0b8e3663a1e20b934'']])"
    by code_simp
  have f: "describe_of partial_outage_env ''medium'' = Inl (ClientError ''RequestLimitExceeded'')"
    by (simp add: partial_outage_env_def)
  have l: "''large'' \<in> set group_names"
    by (simp add: group_names_def INSTANCE_GROUPS_def)
  have k: "describe_of partial_outage_env ''large'' = Inr ''running''"
    by (simp add: partial_outage_env_def)
  from status_query_isolates_failures [of partial_outage_env empty_state] obtain m s' tr where
    g: "get_metrics partial_outage_env empty_state = (Inr m, s', tr)" and
    x: "\<forall>g e. describe_of partial_outage_env g = Inl e \<longrightarrow> g \<notin> set (active_groups m)"
    by blast
  from g a have "active_groups m = [''small'', ''large'']" by auto
  with x f have "''medium'' \<notin> set [''small'', ''large'']" by metis
  with a f l k show ?thesis by blast
qed

end
